theory Spec2Isabelle
  imports Main
begin

section \<open>Overview\<close>

text \<open>
  A model of the two React Native apps of the BLE file transfer: the sender
  (\<^verbatim>\<open>sendersapp.js\<close>) and the receiver. Functions keep the names they have in the
  source; where both apps have a function or a field of the same name, the sender's is
  prefixed \<open>tx_\<close> and the receiver's \<open>rx_\<close>. The \<^verbatim>\<open>useRef\<close> cells and the
  \<^verbatim>\<open>useState\<close> values an app reads back are the fields of one record per app; what is
  only displayed (status text, progress percentage, the list of scanned devices) is left
  out. Every awaited call on the BLE stack, the file system or a package is an argument
  that carries its outcome.
\<close>

section \<open>External packages\<close>

text \<open>
  Both apps call into packages that are not part of the repository:
  \<^verbatim>\<open>react-native-base64\<close> (\<^verbatim>\<open>base64.encode\<close>, \<^verbatim>\<open>base64.decode\<close>),
  \<^verbatim>\<open>react-native-aes-crypto\<close> (\<^verbatim>\<open>AES.encrypt\<close>, \<^verbatim>\<open>AES.decrypt\<close>, \<^verbatim>\<open>AES.randomKey\<close>),
  \<^verbatim>\<open>crypto-js\<close> (\<^verbatim>\<open>sha256\<close>) and \<^verbatim>\<open>tweetnacl\<close> (\<^verbatim>\<open>nacl.box.before\<close>).
  They are parameters of the model, collected in one record. A JavaScript string of
  Latin-1 characters is a \<open>string\<close>; a call that may throw returns a sum whose left
  injection carries \<^verbatim>\<open>err.message\<close>. The session key is \<^verbatim>\<open>aesKey.current\<close>, which is
  \<^verbatim>\<open>null\<close> until a key exchange succeeds: a \<open>string option\<close>.
\<close>

record crypto_lib =
  base64_encode :: "string \<Rightarrow> string"
  base64_decode :: "string \<Rightarrow> string + string"
  AES_encrypt :: "string \<Rightarrow> string option \<Rightarrow> string \<Rightarrow> string \<Rightarrow> string + string"
  AES_decrypt :: "string \<Rightarrow> string option \<Rightarrow> string \<Rightarrow> string \<Rightarrow> string + string"
  sha256 :: "string \<Rightarrow> string + string"
  box_before :: "string \<Rightarrow> string \<Rightarrow> string + string"

text \<open>
  The result of an awaited call on the BLE stack or the file system whose value is not
  used: \<open>None\<close> when the promise resolves, \<open>Some msg\<close> when it rejects with message \<open>msg\<close>.
\<close>

type_synonym outcome = "string option"

text \<open>What the BLE stack hands to a \<^verbatim>\<open>monitor\<close> callback: an error, or a characteristic
  whose \<^verbatim>\<open>value\<close> (Base64 text) may be missing.\<close>

datatype notification = NotifyError string | NotifyValue "string option"

section \<open>Key derivation (both apps)\<close>

text \<open>\<^verbatim>\<open>Buffer.from(bytes).toString('hex')\<close>: two lower-case hexadecimal digits per
  byte.\<close>

definition hexdigit :: "int \<Rightarrow> char" where
  "hexdigit n = (let m = n mod 16 in if m < 10 then char_of (m + 48) else char_of (m + 87))"

definition toHex :: "string \<Rightarrow> string" where
  "toHex bytes = concat (map (\<lambda>c. [hexdigit (of_char c div 16), hexdigit (of_char c)]) bytes)"

text \<open>\<^verbatim>\<open>deriveAESKey\<close>: the value stored in \<^verbatim>\<open>aesKey.current\<close>, or the message passed to
  \<^verbatim>\<open>setError\<close>.\<close>

definition deriveAESKey :: "crypto_lib \<Rightarrow> string \<Rightarrow> string + string" where
  "deriveAESKey lib sharedSecretUint8 =
     (let sharedSecretHex = toHex sharedSecretUint8 in
      case sha256 lib sharedSecretHex of
        Inl msg \<Rightarrow> Inl (''AES key derivation error: '' @ msg)
      | Inr hash \<Rightarrow> Inr (take 64 hash))"

section \<open>Sender: chunking and encryption\<close>

definition CHUNK_SIZE :: nat where
  "CHUNK_SIZE = 180"

definition slice :: "string \<Rightarrow> nat \<Rightarrow> nat \<Rightarrow> string" where
  "slice str start stop = take (stop - start) (drop start str)"

function chunkLoop :: "string \<Rightarrow> nat \<Rightarrow> string list \<Rightarrow> string list" where
  "chunkLoop base64Str index chunks =
     (if index < length base64Str
      then chunkLoop base64Str (index + CHUNK_SIZE)
             (chunks @ [slice base64Str index (index + CHUNK_SIZE)])
      else chunks)"
  by pat_completeness auto
termination
  by (relation "measure (\<lambda>(s, i, c). length s - i)") (auto simp: CHUNK_SIZE_def)

declare chunkLoop.simps [simp del]

definition chunkBase64String :: "string \<Rightarrow> string list" where
  "chunkBase64String base64Str = chunkLoop base64Str 0 []"

text \<open>\<^verbatim>\<open>encryptChunk\<close>. The second argument is the outcome of \<^verbatim>\<open>AES.randomKey(12)\<close>.\<close>

definition encryptChunk ::
  "crypto_lib \<Rightarrow> string option \<Rightarrow> string + string \<Rightarrow> string \<Rightarrow> string + string" where
  "encryptChunk lib key randomKey chunkBase64 =
     (case randomKey of
        Inl msg \<Rightarrow> Inl (''Encryption error: '' @ msg)
      | Inr iv \<Rightarrow>
          (case AES_encrypt lib chunkBase64 key iv ''aes-256-gcm'' of
             Inl msg \<Rightarrow> Inl (''Encryption error: '' @ msg)
           | Inr cipher \<Rightarrow> Inr (iv @ cipher)))"

section \<open>Receiver\<close>

text \<open>The state of the receiver app. \<open>rx_writes\<close> records the values the app has written
  to the transfer characteristic, in order, and \<open>rx_savedFile\<close> the data last handed to
  \<^verbatim>\<open>RNFS.writeFile\<close>; the other fields are the app's own.\<close>

record receiver =
  rx_connectedDevice :: "string option"
  rx_receivedFileName :: "string option"
  rx_error :: "string option"
  rx_ephemeralKeyPair :: "(string \<times> string) option"
  rx_sharedSecret :: "string option"
  rx_aesKey :: "string option"
  receivedChunks :: "string list"
  totalChunks :: nat
  rx_writes :: "string list"
  rx_savedFile :: "string option"

text \<open>\<^verbatim>\<open>decryptChunk\<close>: one more \<^verbatim>\<open>base64.decode\<close>, then the first 12 characters are
  taken as the IV and the rest as the ciphertext.\<close>

definition decryptChunk :: "crypto_lib \<Rightarrow> string option \<Rightarrow> string \<Rightarrow> string + string" where
  "decryptChunk lib key encryptedChunkBase64 =
     (case base64_decode lib encryptedChunkBase64 of
        Inl msg \<Rightarrow> Inl (''Decryption error: '' @ msg)
      | Inr encryptedData \<Rightarrow>
          (let iv = take 12 encryptedData;
               cipher = drop 12 encryptedData in
           case AES_decrypt lib cipher key iv ''aes-256-gcm'' of
             Inl msg \<Rightarrow> Inl (''Decryption error: '' @ msg)
           | Inr decrypted \<Rightarrow> Inr decrypted))"

text \<open>\<^verbatim>\<open>assembleAndSaveFile\<close>; \<open>fs\<close> is the outcome of \<^verbatim>\<open>RNFS.writeFile\<close>.\<close>

definition assembleAndSaveFile :: "outcome \<Rightarrow> receiver \<Rightarrow> receiver" where
  "assembleAndSaveFile fs r =
     (let fileData = concat (receivedChunks r) in
      case fs of
        Some msg \<Rightarrow> r\<lparr>rx_error := Some (''File save error: '' @ msg)\<rparr>
      | None \<Rightarrow> r\<lparr>rx_savedFile := Some fileData,
                  rx_receivedFileName := Some ''received_file.txt''\<rparr>)"

text \<open>\<^verbatim>\<open>processReceivedChunk\<close>; \<open>wr\<close> is the outcome of writing the acknowledgment to the
  transfer characteristic. The progress percentage shown on screen is not part of the
  model.\<close>

definition processReceivedChunk ::
  "crypto_lib \<Rightarrow> outcome \<Rightarrow> outcome \<Rightarrow> string \<Rightarrow> receiver \<Rightarrow> receiver" where
  "processReceivedChunk lib wr fs encryptedChunkBase64 r =
     (case decryptChunk lib (rx_aesKey r) encryptedChunkBase64 of
        Inl msg \<Rightarrow> r\<lparr>rx_error := Some (''Chunk processing error: '' @ msg)\<rparr>
      | Inr decryptedChunk \<Rightarrow>
          (let r1 = r\<lparr>receivedChunks := receivedChunks r @ [decryptedChunk]\<rparr> in
           case wr of
             Some msg \<Rightarrow> r1\<lparr>rx_error := Some (''Chunk processing error: '' @ msg)\<rparr>
           | None \<Rightarrow>
               (let r2 = r1\<lparr>rx_writes := rx_writes r1 @ [base64_encode lib ''ACK'']\<rparr> in
                if length (receivedChunks r2) = totalChunks r2
                then assembleAndSaveFile fs r2
                else r2)))"

text \<open>The callback given to \<^verbatim>\<open>transferChar.current.monitor\<close> on the receiver. An exception
  of \<^verbatim>\<open>base64.decode\<close> escapes the callback and leaves the state as it was.\<close>

fun rx_monitor ::
  "crypto_lib \<Rightarrow> outcome \<Rightarrow> outcome \<Rightarrow> receiver \<Rightarrow> notification \<Rightarrow> receiver" where
  "rx_monitor lib wr fs r (NotifyError msg) =
     r\<lparr>rx_error := Some (''Notification error: '' @ msg)\<rparr>"
| "rx_monitor lib wr fs r (NotifyValue None) = r"
| "rx_monitor lib wr fs r (NotifyValue (Some v)) =
     (if v = [] then r
      else case base64_decode lib v of
             Inl msg \<Rightarrow> r
           | Inr encryptedChunkBase64 \<Rightarrow> processReceivedChunk lib wr fs encryptedChunkBase64 r)"

text \<open>The handler registered with \<^verbatim>\<open>manager.onDeviceDisconnected\<close>.\<close>

definition onDeviceDisconnected :: "string option \<Rightarrow> receiver \<Rightarrow> receiver" where
  "onDeviceDisconnected err r =
     (let r1 = (case err of
                  Some msg \<Rightarrow> r\<lparr>rx_error := Some (''Disconnect error: '' @ msg)\<rparr>
                | None \<Rightarrow> r) in
      r1\<lparr>rx_connectedDevice := None,
         rx_receivedFileName := None,
         receivedChunks := [],
         totalChunks := 0\<rparr>)"

text \<open>\<^verbatim>\<open>disconnectDevice\<close> of the receiver app (the Disconnect button); errors of
  \<^verbatim>\<open>cancelDeviceConnection\<close> are ignored by the source.\<close>

definition rx_disconnectDevice :: "receiver \<Rightarrow> receiver" where
  "rx_disconnectDevice r =
     (if rx_connectedDevice r \<noteq> None
      then r\<lparr>rx_connectedDevice := None,
             rx_receivedFileName := None,
             receivedChunks := [],
             totalChunks := 0\<rparr>
      else r)"

text \<open>The receiver as the component is first rendered: every \<^verbatim>\<open>useRef\<close> and
  \<^verbatim>\<open>useState\<close> at its initial value, nothing written yet.\<close>

definition rx_initial :: receiver where
  "rx_initial =
     \<lparr>rx_connectedDevice = None, rx_receivedFileName = None, rx_error = None,
      rx_ephemeralKeyPair = None, rx_sharedSecret = None, rx_aesKey = None,
      receivedChunks = [], totalChunks = 0, rx_writes = [], rx_savedFile = None\<rparr>"

text \<open>A sequence of notifications, each with the outcomes of the two awaited calls its
  processing may make, handled one after the other.\<close>

fun rx_run ::
  "crypto_lib \<Rightarrow> receiver \<Rightarrow> (notification \<times> outcome \<times> outcome) list \<Rightarrow> receiver" where
  "rx_run lib r [] = r"
| "rx_run lib r ((n, wr, fs) # ns) = rx_run lib (rx_monitor lib wr fs r n) ns"

section \<open>Sender: the transfer loop\<close>

text \<open>The state of the sender app; \<open>tx_transferChar\<close> says whether
  \<^verbatim>\<open>transferChar.current\<close> is set.\<close>

record sender =
  tx_connectedDevice :: "string option"
  tx_fileInfo :: "string option"
  tx_error :: "string option"
  tx_ephemeralKeyPair :: "(string \<times> string) option"
  tx_sharedSecret :: "string option"
  tx_aesKey :: "string option"
  tx_transferChar :: bool
  ackReceived :: bool

definition tx_initial :: sender where
  "tx_initial =
     \<lparr>tx_connectedDevice = None, tx_fileInfo = None, tx_error = None,
      tx_ephemeralKeyPair = None, tx_sharedSecret = None, tx_aesKey = None,
      tx_transferChar = False, ackReceived = True\<rparr>"

text \<open>
  \<^verbatim>\<open>sendFileChunks\<close> is an \<^verbatim>\<open>async\<close> function: it runs until it has to wait, and the
  monitor callback runs in between. Its control point is \<open>Waiting chunks i payload\<close>
  when iteration \<open>i\<close> of the \<^verbatim>\<open>for\<close> loop has encrypted and encoded its chunk and sits
  in the \<^verbatim>\<open>while (!ackReceived.current)\<close> loop; \<open>Completed\<close> after the loop
  (the "completed successfully" alert); \<open>Stopped\<close> when the function returned early or
  through its \<^verbatim>\<open>catch\<close>, with the message in \<open>tx_error\<close>.
\<close>

datatype send_pc = Waiting "string list" nat string | Completed | Stopped

text \<open>What can be observed of the sender on the transfer characteristic, in order: a value
  written (line 328), and an acknowledgment accepted by the monitor callback (line 162).\<close>

datatype obs = Wrote string | AckAccepted

text \<open>The events that drive the sender: a notification on the transfer characteristic,
  or the transfer loop resuming (after the awaited encryption, or from its 100 ms sleep)
  and testing the flag, with the outcome of the write should it attempt one.\<close>

datatype sender_event = Notify notification | Wake outcome

text \<open>The monitor callback installed by \<^verbatim>\<open>connectToDevice\<close>.\<close>

fun tx_monitor :: "crypto_lib \<Rightarrow> sender \<Rightarrow> notification \<Rightarrow> sender \<times> obs list" where
  "tx_monitor lib s (NotifyError msg) =
     (s\<lparr>tx_error := Some (''Notification error: '' @ msg)\<rparr>, [])"
| "tx_monitor lib s (NotifyValue None) = (s, [])"
| "tx_monitor lib s (NotifyValue (Some v)) =
     (if v = [] then (s, [])
      else case base64_decode lib v of
             Inl msg \<Rightarrow> (s, [])
           | Inr value \<Rightarrow>
               if value = ''ACK'' then (s\<lparr>ackReceived := True\<rparr>, [AckAccepted])
               else (s, []))"

text \<open>The head of iteration \<open>i\<close> (lines 317 to 319): leave the loop when the chunks are
  used up, otherwise encrypt and encode chunk \<open>i\<close>. \<open>rk i\<close> is the outcome of the call
  of \<^verbatim>\<open>AES.randomKey(12)\<close> made for chunk \<open>i\<close>.\<close>

definition loopHead ::
  "crypto_lib \<Rightarrow> (nat \<Rightarrow> string + string) \<Rightarrow> string list \<Rightarrow> nat \<Rightarrow> sender \<Rightarrow> sender \<times> send_pc"
where
  "loopHead lib rk chunks i s =
     (if i < length chunks
      then case encryptChunk lib (tx_aesKey s) (rk i) (chunks ! i) of
             Inl msg \<Rightarrow> (s\<lparr>tx_error := Some (''File transfer error: '' @ msg)\<rparr>, Stopped)
           | Inr encryptedChunk \<Rightarrow> (s, Waiting chunks i (base64_encode lib encryptedChunk))
      else (s, Completed))"

text \<open>\<^verbatim>\<open>sendFileChunks\<close> up to its first wait; \<open>file\<close> is the outcome of
  \<^verbatim>\<open>readFileAsBase64\<close>. An empty key string is falsy in JavaScript, like \<^verbatim>\<open>null\<close>.\<close>

definition sendFileChunks ::
  "crypto_lib \<Rightarrow> (nat \<Rightarrow> string + string) \<Rightarrow> string + string \<Rightarrow> sender \<Rightarrow> sender \<times> send_pc"
where
  "sendFileChunks lib rk file s =
     (if tx_fileInfo s = None
      then (s\<lparr>tx_error := Some ''No file selected''\<rparr>, Stopped)
      else if tx_connectedDevice s = None \<or> \<not> tx_transferChar s
      then (s\<lparr>tx_error := Some ''No connected device or transfer characteristic''\<rparr>, Stopped)
      else if tx_aesKey s = None \<or> tx_aesKey s = Some []
      then (s\<lparr>tx_error := Some ''Encryption key not established''\<rparr>, Stopped)
      else (let s1 = s\<lparr>tx_error := None\<rparr> in
            case file of
              Inl msg \<Rightarrow> (s1\<lparr>tx_error := Some (''File transfer error: '' @ msg)\<rparr>, Stopped)
            | Inr base64Data \<Rightarrow> loopHead lib rk (chunkBase64String base64Data) 0 s1))"

text \<open>One event. On waking in the wait loop with \<^verbatim>\<open>ackReceived.current\<close> set, the loop
  clears the flag and writes the payload (lines 322 to 328, no \<^verbatim>\<open>await\<close> between the
  test and the assignment), then moves to the next iteration; a rejected write ends in
  the \<^verbatim>\<open>catch\<close>.\<close>

fun tx_step ::
  "crypto_lib \<Rightarrow> (nat \<Rightarrow> string + string) \<Rightarrow> sender \<times> send_pc \<Rightarrow> sender_event
     \<Rightarrow> (sender \<times> send_pc) \<times> obs list" where
  "tx_step lib rk (s, pc) (Notify n) =
     (case tx_monitor lib s n of (s1, out) \<Rightarrow> ((s1, pc), out))"
| "tx_step lib rk (s, Waiting chunks i payload) (Wake wr) =
     (if ackReceived s
      then (let s1 = s\<lparr>ackReceived := False\<rparr> in
            case wr of
              Some msg \<Rightarrow>
                ((s1\<lparr>tx_error := Some (''File transfer error: '' @ msg)\<rparr>, Stopped), [])
            | None \<Rightarrow> (loopHead lib rk chunks (i + 1) s1, [Wrote payload]))
      else ((s, Waiting chunks i payload), []))"
| "tx_step lib rk (s, Completed) (Wake wr) = ((s, Completed), [])"
| "tx_step lib rk (s, Stopped) (Wake wr) = ((s, Stopped), [])"

fun tx_run ::
  "crypto_lib \<Rightarrow> (nat \<Rightarrow> string + string) \<Rightarrow> sender \<times> send_pc \<Rightarrow> sender_event list
     \<Rightarrow> (sender \<times> send_pc) \<times> obs list" where
  "tx_run lib rk c [] = (c, [])"
| "tx_run lib rk c (e # es) =
     (case tx_step lib rk c e of
        (c1, out1) \<Rightarrow> (case tx_run lib rk c1 es of (c2, out2) \<Rightarrow> (c2, out1 @ out2)))"

text \<open>\<^verbatim>\<open>disconnectDevice\<close> of the sender app.\<close>

definition tx_disconnectDevice :: "sender \<Rightarrow> sender" where
  "tx_disconnectDevice s =
     (if tx_connectedDevice s \<noteq> None
      then s\<lparr>tx_connectedDevice := None, tx_fileInfo := None, tx_error := None\<rparr>
      else s)"

section \<open>Key exchange\<close>

text \<open>\<^verbatim>\<open>performKeyExchange\<close> of the sender: \<open>kp\<close> is the pair (public key, secret key)
  that \<^verbatim>\<open>nacl.box.keyPair()\<close> returned, \<open>wr\<close> the outcome of writing the public key to the
  handshake characteristic, \<open>rd\<close> the outcome of reading it (rejected, or a
  characteristic whose value may be missing). The \<^verbatim>\<open>catch\<close> block tests the variable
  \<^verbatim>\<open>connectedDevice\<close> of the render whose closure is running, not the state that
  \<^verbatim>\<open>setConnectedDevice\<close> has set since: that captured value is the argument
  \<open>connectedDevice\<close> (it is \<^verbatim>\<open>null\<close> when the exchange was started by tapping a device,
  since the list entries are disabled while a device is connected).\<close>

definition tx_catchKeyExchange :: "string option \<Rightarrow> string \<Rightarrow> sender \<Rightarrow> sender" where
  "tx_catchKeyExchange connectedDevice msg s =
     (let s1 = s\<lparr>tx_error := Some (''Key exchange error: '' @ msg)\<rparr> in
      if connectedDevice \<noteq> None then s1\<lparr>tx_connectedDevice := None\<rparr> else s1)"

definition tx_deriveAESKey :: "crypto_lib \<Rightarrow> string \<Rightarrow> sender \<Rightarrow> sender" where
  "tx_deriveAESKey lib sharedSecretUint8 s =
     (case deriveAESKey lib sharedSecretUint8 of
        Inl msg \<Rightarrow> s\<lparr>tx_error := Some msg\<rparr>
      | Inr aesKeyHex \<Rightarrow> s\<lparr>tx_aesKey := Some aesKeyHex\<rparr>)"

definition tx_performKeyExchange ::
  "crypto_lib \<Rightarrow> string option \<Rightarrow> string \<times> string \<Rightarrow> outcome \<Rightarrow> string + string option
     \<Rightarrow> sender \<Rightarrow> sender"
where
  "tx_performKeyExchange lib connectedDevice kp wr rd s =
     (let s1 = s\<lparr>tx_ephemeralKeyPair := Some kp\<rparr> in
      case wr of
        Some msg \<Rightarrow> tx_catchKeyExchange connectedDevice msg s1
      | None \<Rightarrow>
          (case rd of
             Inl msg \<Rightarrow> tx_catchKeyExchange connectedDevice msg s1
           | Inr None \<Rightarrow>
               tx_catchKeyExchange connectedDevice ''Failed to read peer public key'' s1
           | Inr (Some v) \<Rightarrow>
               if v = []
               then tx_catchKeyExchange connectedDevice ''Failed to read peer public key'' s1
               else (case base64_decode lib v of
                       Inl msg \<Rightarrow> tx_catchKeyExchange connectedDevice msg s1
                     | Inr peerPubKeyStr \<Rightarrow>
                         (case box_before lib peerPubKeyStr (snd kp) of
                            Inl msg \<Rightarrow> tx_catchKeyExchange connectedDevice msg s1
                          | Inr secret \<Rightarrow>
                              tx_deriveAESKey lib secret
                                (s1\<lparr>tx_sharedSecret := Some secret\<rparr>)))))"

text \<open>\<^verbatim>\<open>performKeyExchange\<close> of the receiver reads first and writes second; its
  \<^verbatim>\<open>catch\<close> only records the error.\<close>

definition rx_catchKeyExchange :: "string \<Rightarrow> receiver \<Rightarrow> receiver" where
  "rx_catchKeyExchange msg r = r\<lparr>rx_error := Some (''Key exchange error: '' @ msg)\<rparr>"

definition rx_deriveAESKey :: "crypto_lib \<Rightarrow> string \<Rightarrow> receiver \<Rightarrow> receiver" where
  "rx_deriveAESKey lib sharedSecretUint8 r =
     (case deriveAESKey lib sharedSecretUint8 of
        Inl msg \<Rightarrow> r\<lparr>rx_error := Some msg\<rparr>
      | Inr aesKeyHex \<Rightarrow> r\<lparr>rx_aesKey := Some aesKeyHex\<rparr>)"

definition rx_performKeyExchange ::
  "crypto_lib \<Rightarrow> string \<times> string \<Rightarrow> string + string option \<Rightarrow> outcome \<Rightarrow> receiver \<Rightarrow> receiver"
where
  "rx_performKeyExchange lib kp rd wr r =
     (let r1 = r\<lparr>rx_ephemeralKeyPair := Some kp\<rparr> in
      case rd of
        Inl msg \<Rightarrow> rx_catchKeyExchange msg r1
      | Inr None \<Rightarrow> rx_catchKeyExchange ''Failed to read sender public key'' r1
      | Inr (Some v) \<Rightarrow>
          if v = [] then rx_catchKeyExchange ''Failed to read sender public key'' r1
          else (case base64_decode lib v of
                  Inl msg \<Rightarrow> rx_catchKeyExchange msg r1
                | Inr senderPubKeyStr \<Rightarrow>
                    (case wr of
                       Some msg \<Rightarrow> rx_catchKeyExchange msg r1
                     | None \<Rightarrow>
                         (case box_before lib senderPubKeyStr (snd kp) of
                            Inl msg \<Rightarrow> rx_catchKeyExchange msg r1
                          | Inr secret \<Rightarrow>
                              rx_deriveAESKey lib secret
                                (r1\<lparr>rx_sharedSecret := Some secret\<rparr>)))))"

section \<open>A reference instance of the external packages\<close>

text \<open>
  The theorems below hold for every instance of \<open>crypto_lib\<close>, some of them under
  hypotheses that state what the packages guarantee. To show that these hypotheses can
  be met, and to run the model on concrete inputs, the parameter is instantiated with
  \<open>ref_lib\<close>: the Base64 coding of RFC 4648, and simple stand-ins for the cipher, the
  hash and the key agreement (they authenticate and are deterministic, but they are not
  AES-GCM, SHA-256 or Curve25519, and nothing is claimed about those algorithms).
\<close>

definition b64char :: "int \<Rightarrow> char" where
  "b64char n =
     (let m = n mod 64 in
      if m < 26 then char_of (m + 65)
      else if m < 52 then char_of (m + 71)
      else if m < 62 then char_of (m - 4)
      else if m = 62 then CHR ''+'' else CHR ''/'')"

definition b64index :: "char \<Rightarrow> int option" where
  "b64index c =
     (let n = of_char c :: int in
      if 65 \<le> n \<and> n \<le> 90 then Some (n - 65)
      else if 97 \<le> n \<and> n \<le> 122 then Some (n - 71)
      else if 48 \<le> n \<and> n \<le> 57 then Some (n + 4)
      else if n = 43 then Some 62
      else if n = 47 then Some 63
      else None)"

definition byte :: "int \<Rightarrow> char" where
  "byte n = char_of (n mod 256)"

fun ref_encode :: "string \<Rightarrow> string" where
  "ref_encode [] = []"
| "ref_encode [a] =
     (let x = of_char a :: int in
      [b64char (x div 4), b64char ((x mod 4) * 16), CHR ''='', CHR ''=''])"
| "ref_encode [a, b] =
     (let x = of_char a :: int; y = of_char b :: int in
      [b64char (x div 4), b64char ((x mod 4) * 16 + y div 16),
       b64char ((y mod 16) * 4), CHR ''=''])"
| "ref_encode (a # b # c # rest) =
     (let x = of_char a :: int; y = of_char b :: int; z = of_char c :: int in
      [b64char (x div 4), b64char ((x mod 4) * 16 + y div 16),
       b64char ((y mod 16) * 4 + z div 64), b64char (z mod 64)]) @ ref_encode rest"

fun ref_decode :: "string \<Rightarrow> string + string" where
  "ref_decode [] = Inr []"
| "ref_decode (c1 # c2 # c3 # c4 # rest) =
     (case (b64index c1, b64index c2) of
        (Some i1, Some i2) \<Rightarrow>
          if c3 = CHR ''='' \<and> c4 = CHR ''='' \<and> rest = []
          then Inr [byte (i1 * 4 + i2 div 16)]
          else (case b64index c3 of
                  None \<Rightarrow> Inl ''invalid base64 character''
                | Some i3 \<Rightarrow>
                    if c4 = CHR ''='' \<and> rest = []
                    then Inr [byte (i1 * 4 + i2 div 16), byte (i2 * 16 + i3 div 4)]
                    else (case b64index c4 of
                            None \<Rightarrow> Inl ''invalid base64 character''
                          | Some i4 \<Rightarrow>
                              (case ref_decode rest of
                                 Inl msg \<Rightarrow> Inl msg
                               | Inr bytes \<Rightarrow>
                                   Inr (byte (i1 * 4 + i2 div 16) # byte (i2 * 16 + i3 div 4)
                                        # byte (i3 * 64 + i4) # bytes))))
      | _ \<Rightarrow> Inl ''invalid base64 character'')"
| "ref_decode _ = Inl ''invalid base64 length''"

text \<open>The stand-in cipher appends a 16-character tag computed from key and IV to the
  plaintext and returns the result as Base64 text; decryption accepts exactly the texts
  that encryption produces under the same key and IV.\<close>

definition ref_tag :: "string \<Rightarrow> string \<Rightarrow> string" where
  "ref_tag k iv = take 16 (rev iv @ k @ replicate 16 CHR ''#'')"

definition ref_encrypt :: "string \<Rightarrow> string option \<Rightarrow> string \<Rightarrow> string \<Rightarrow> string + string" where
  "ref_encrypt text key iv algorithm =
     (case key of
        None \<Rightarrow> Inl ''key is null''
      | Some k \<Rightarrow> Inr (ref_encode (text @ ref_tag k iv)))"

definition ref_decrypt :: "string \<Rightarrow> string option \<Rightarrow> string \<Rightarrow> string \<Rightarrow> string + string" where
  "ref_decrypt cipher key iv algorithm =
     (case key of
        None \<Rightarrow> Inl ''key is null''
      | Some k \<Rightarrow>
          (case ref_decode cipher of
             Inl msg \<Rightarrow> Inl msg
           | Inr d \<Rightarrow>
               if 16 \<le> length d \<and> drop (length d - 16) d = ref_tag k iv \<and> ref_encode d = cipher
               then Inr (take (length d - 16) d)
               else Inl ''authentication failed''))"

definition ref_sha256 :: "string \<Rightarrow> string + string" where
  "ref_sha256 message = Inr (take 64 (toHex (rev message) @ replicate 64 CHR ''0''))"

definition ref_box_before :: "string \<Rightarrow> string \<Rightarrow> string + string" where
  "ref_box_before publicKey secretKey =
     (if length publicKey = 32 \<and> length secretKey = 32
      then Inr (map (\<lambda>(a, b). byte (of_char a + of_char b)) (zip publicKey secretKey))
      else Inl ''bad key size'')"

definition ref_lib :: crypto_lib where
  "ref_lib =
     \<lparr>base64_encode = ref_encode, base64_decode = ref_decode,
      AES_encrypt = ref_encrypt, AES_decrypt = ref_decrypt,
      sha256 = ref_sha256, box_before = ref_box_before\<rparr>"

section \<open>The layouts the specification describes\<close>

text \<open>
  The following definitions are written from the specification's words, to compare the
  frames and acknowledgments of the code with them. \<open>spec_be32 n\<close> is the 4-byte big-endian
  representation of a sequence number. \<open>spec_wire_layout seq isLast frame\<close> holds when
  \<open>frame\<close> starts with the big-endian sequence number followed by a flags byte whose bit 0
  is \<open>isLast\<close>, and is long enough to hold a 12-byte nonce and a 16-byte tag after them.
\<close>

definition spec_be32 :: "nat \<Rightarrow> string" where
  "spec_be32 n = [byte (int n div 16777216), byte (int n div 65536), byte (int n div 256), byte (int n)]"

definition spec_wire_layout :: "nat \<Rightarrow> bool \<Rightarrow> string \<Rightarrow> bool" where
  "spec_wire_layout seq isLast frame =
     (33 \<le> length frame \<and> take 4 frame = spec_be32 seq \<and>
      odd (of_char (frame ! 4) :: nat) = isLast)"

section \<open>Observations of a run\<close>

text \<open>Stop-and-wait on a sequence of observations: a value is written only while no
  frame is outstanding, and a written frame stays outstanding until an acknowledgment
  is accepted. The flag says whether a frame is outstanding at the start.\<close>

fun stop_and_wait :: "bool \<Rightarrow> obs list \<Rightarrow> bool" where
  "stop_and_wait outstanding [] = True"
| "stop_and_wait outstanding (Wrote payload # rest) =
     (\<not> outstanding \<and> stop_and_wait True rest)"
| "stop_and_wait outstanding (AckAccepted # rest) = stop_and_wait False rest"

text \<open>The values written to the transfer characteristic, in order.\<close>

fun writes_of :: "obs list \<Rightarrow> string list" where
  "writes_of [] = []"
| "writes_of (Wrote payload # rest) = payload # writes_of rest"
| "writes_of (AckAccepted # rest) = writes_of rest"

text \<open>\<open>frame_payload lib key rk chunks i w\<close>: the value \<open>w\<close> is what lines 318 and 319
  compute for chunk \<open>i\<close>, the transport encoding of the IV drawn for that chunk followed by
  the ciphertext of the chunk.\<close>

definition frame_payload ::
  "crypto_lib \<Rightarrow> string option \<Rightarrow> (nat \<Rightarrow> string + string) \<Rightarrow> string list \<Rightarrow> nat \<Rightarrow> string \<Rightarrow> bool"
where
  "frame_payload lib key rk chunks i w =
     (i < length chunks \<and>
      (case rk i of
         Inl msg \<Rightarrow> False
       | Inr iv \<Rightarrow>
           (case AES_encrypt lib (chunks ! i) key iv ''aes-256-gcm'' of
              Inl msg \<Rightarrow> False
            | Inr cipher \<Rightarrow> w = base64_encode lib (iv @ cipher))))"

text \<open>\<open>are_frames lib key rk chunks i ws\<close>: the values \<open>ws\<close> are the payloads of the chunks
  \<open>i\<close>, \<open>i + 1\<close>, ... in this order; \<open>pc_frames\<close>: a control point in the wait loop
  holds the payload of its chunk.\<close>

fun are_frames ::
  "crypto_lib \<Rightarrow> string option \<Rightarrow> (nat \<Rightarrow> string + string) \<Rightarrow> string list \<Rightarrow> nat \<Rightarrow> string list \<Rightarrow> bool"
where
  "are_frames lib key rk chunks i [] = True"
| "are_frames lib key rk chunks i (w # ws) =
     (frame_payload lib key rk chunks i w \<and> are_frames lib key rk chunks (Suc i) ws)"

fun pc_frames ::
  "crypto_lib \<Rightarrow> string option \<Rightarrow> (nat \<Rightarrow> string + string) \<Rightarrow> string list \<Rightarrow> nat \<Rightarrow> send_pc \<Rightarrow> bool"
where
  "pc_frames lib key rk chunks i (Waiting cs j payload) =
     (cs = chunks \<and> j = i \<and> frame_payload lib key rk chunks i payload)"
| "pc_frames lib key rk chunks i Completed = True"
| "pc_frames lib key rk chunks i Stopped = True"

text \<open>An event in which the sender's monitor callback receives an acknowledgment.\<close>

fun is_ack :: "crypto_lib \<Rightarrow> sender_event \<Rightarrow> bool" where
  "is_ack lib (Notify (NotifyValue (Some v))) = (v \<noteq> [] \<and> base64_decode lib v = Inr ''ACK'')"
| "is_ack lib _ = False"

section \<open>Concrete sessions\<close>

text \<open>A session key, and both apps as they stand after connecting and a successful key
  exchange, with a file picked on the sender.\<close>

definition demo_key :: string where
  "demo_key = ''00112233445566778899aabbccddeeff00112233445566778899aabbccddeeff''"

definition demo_sender :: sender where
  "demo_sender =
     tx_initial\<lparr>tx_connectedDevice := Some ''device'', tx_fileInfo := Some ''file:///doc.bin'',
                tx_aesKey := Some demo_key, tx_transferChar := True\<rparr>"

definition demo_receiver :: receiver where
  "demo_receiver = rx_initial\<lparr>rx_connectedDevice := Some ''device'', rx_aesKey := Some demo_key\<rparr>"

text \<open>An IV as \<^verbatim>\<open>AES.randomKey(12)\<close> returns it (12 random bytes as 24 hexadecimal
  digits), used for every chunk of the concrete runs.\<close>

definition demo_iv :: string where
  "demo_iv = ''0123456789abcdef01234567''"

definition demo_rk :: "nat \<Rightarrow> string + string" where
  "demo_rk i = Inr demo_iv"

text \<open>The Base64 text of a file of two chunks.\<close>

definition demo_data :: string where
  "demo_data = replicate 181 CHR ''A''"

text \<open>The Base64 text of a file of two equal full chunks, and of a file of three chunks.\<close>

definition demo_data_equal_chunks :: string where
  "demo_data_equal_chunks = replicate 360 CHR ''A''"

definition demo_data_three_chunks :: string where
  "demo_data_three_chunks = replicate 361 CHR ''A''"

text \<open>A frame the receiver accepts: the Base64 text of a 12-character IV followed by the
  ciphertext of the chunk \<open>QUJD\<close> under that IV, and the notification value that
  carries it.\<close>

definition demo_frame :: string where
  "demo_frame = ''MDEyMzQ1Njc4OWFiVVZWS1JHSmhPVGczTmpVME16SXhNREF3TVRFPQ==''"

definition demo_value :: string where
  "demo_value = ref_encode demo_frame"

text \<open>A key pair and the handshake value of a peer, for a key exchange on the reference
  instance.\<close>

definition demo_keypair :: "string \<times> string" where
  "demo_keypair = (replicate 32 CHR ''P'', replicate 32 CHR ''S'')"

definition demo_peer_value :: string where
  "demo_peer_value = ref_encode (replicate 32 CHR ''Q'')"

section \<open>The reference instance meets the contracts of the packages\<close>

text \<open>Decoding inverts encoding, and decryption inverts encryption under the same key and
  IV: whatever fails below on the reference instance does not fail because of it.\<close>

lemma b64index_b64char: "b64index (b64char n) = Some (n mod 64)"
proof -
  have "0 \<le> n mod 64" "n mod 64 < 64" by simp_all
  then show ?thesis
    by (auto simp: b64index_def b64char_def Let_def)
qed

lemma b64char_not_pad: "b64char n \<noteq> CHR ''=''"
proof -
  have "of_char (b64char n) \<noteq> (61::int)"
    using b64index_b64char[of n]
    by (auto simp: b64index_def Let_def split: if_splits)
  then show ?thesis by auto
qed

lemma of_char_range: "0 \<le> (of_char c :: int)" "(of_char c :: int) < 256"
  by (simp_all add: of_char_def)

lemma sextet_first: "(of_char a div 4 :: int) mod 64 = of_char a div 4"
  using of_char_range[of a] by simp

lemma sextet_second:
  "((of_char a mod 4) * 16 + of_char b div 16 :: int) mod 64 = (of_char a mod 4) * 16 + of_char b div 16"
  using of_char_range[of b] by (intro mod_pos_pos_trivial) auto

lemma sextet_second0: "((of_char a mod 4) * 16 :: int) mod 64 = (of_char a mod 4) * 16"
  by (intro mod_pos_pos_trivial) auto

lemma sextet_third:
  "((of_char b mod 16) * 4 + of_char c div 64 :: int) mod 64 = (of_char b mod 16) * 4 + of_char c div 64"
  using of_char_range[of c] by (intro mod_pos_pos_trivial) auto

lemma sextet_third0: "((of_char b mod 16) * 4 :: int) mod 64 = (of_char b mod 16) * 4"
  by (intro mod_pos_pos_trivial) auto

lemma octet_first:
  "byte (of_char a div 4 * 4 + ((of_char a mod 4) * 16 + of_char b div 16) div 16) = a"
proof -
  have "((of_char a mod 4) * 16 + of_char b div 16 :: int) div 16 = of_char a mod 4"
    using of_char_range[of b] by simp
  then show ?thesis by (simp add: byte_def)
qed

lemma octet_first0: "byte (of_char a div 4 * 4 + ((of_char a mod 4) * 16) div 16) = a"
  by (simp add: byte_def)

lemma octet_second:
  "byte (((of_char a mod 4) * 16 + of_char b div 16) * 16
          + ((of_char b mod 16) * 4 + of_char c div 64) div 4) = b"
proof -
  have "((of_char b mod 16) * 4 + of_char c div 64 :: int) div 4 = of_char b mod 16"
    using of_char_range[of c] by simp
  moreover have "((of_char a mod 4) * 16 + of_char b div 16) * 16 + of_char b mod 16
      = (of_char a mod 4) * 256 + (of_char b :: int)"
    by (simp add: algebra_simps)
  ultimately show ?thesis by (simp add: byte_def)
qed

lemma octet_second0:
  "byte (((of_char a mod 4) * 16 + of_char b div 16) * 16 + ((of_char b mod 16) * 4) div 4) = b"
proof -
  have "((of_char a mod 4) * 16 + of_char b div 16) * 16 + of_char b mod 16
      = (of_char a mod 4) * 256 + (of_char b :: int)"
    by (simp add: algebra_simps)
  then show ?thesis by (simp add: byte_def)
qed

lemma octet_third:
  "byte (((of_char b mod 16) * 4 + of_char c div 64) * 64 + of_char c mod 64) = c"
proof -
  have "((of_char b mod 16) * 4 + of_char c div 64) * 64 + of_char c mod 64
      = (of_char b mod 16) * 256 + (of_char c :: int)"
    by (simp add: algebra_simps)
  then show ?thesis by (simp add: byte_def)
qed

lemma ref_decode_encode: "ref_decode (ref_encode x) = Inr x"
proof (induction x rule: ref_encode.induct)
  case 1
  then show ?case by simp
next
  case (2 a)
  show ?case
    by (simp only: ref_encode.simps ref_decode.simps Let_def b64index_b64char b64char_not_pad
        sextet_first sextet_second0 octet_first0 prod.case option.case simp_thms if_True)
next
  case (3 a b)
  show ?case
    by (simp only: ref_encode.simps ref_decode.simps Let_def b64index_b64char b64char_not_pad
        sextet_first sextet_second sextet_third0 octet_first octet_second0
        prod.case option.case simp_thms if_True if_False)
next
  case (4 a b c rest)
  show ?case
    by (simp only: ref_encode.simps ref_decode.simps Let_def b64index_b64char b64char_not_pad
        sextet_first sextet_second sextet_third octet_first octet_second octet_third
        mod_mod_trivial append.simps "4.IH"
        prod.case option.case sum.case simp_thms if_True if_False)
qed

lemma ref_decrypt_encrypt:
  assumes "AES_encrypt ref_lib p key iv a = Inr c"
  shows "AES_decrypt ref_lib c key iv a = Inr p"
proof -
  from assms obtain k where k: "key = Some k" and c: "c = ref_encode (p @ ref_tag k iv)"
    by (auto simp: ref_lib_def ref_encrypt_def split: option.splits)
  have "length (ref_tag k iv) = 16" by (simp add: ref_tag_def)
  with k c show ?thesis
    by (simp add: ref_lib_def ref_decrypt_def ref_decode_encode)
qed

text \<open>What the receiver expects: \<^verbatim>\<open>decryptChunk\<close> recovers a chunk from the Base64 text of
  a 12-character IV followed by the ciphertext of the chunk under that IV, for every
  instance of the packages in which decoding inverts encoding and decryption inverts
  encryption.\<close>

lemma decryptChunk_expected_format:
  assumes "base64_decode lib (base64_encode lib (iv @ c)) = Inr (iv @ c)"
    and "AES_decrypt lib c key iv ''aes-256-gcm'' = Inr p"
    and "length iv = 12"
  shows "decryptChunk lib key (base64_encode lib (iv @ c)) = Inr p"
  using assms by (simp add: decryptChunk_def)

section \<open>Receiver: completion\<close>

lemma rx_deriveAESKey_fields:
  "receivedChunks (rx_deriveAESKey lib x r) = receivedChunks r"
  "totalChunks (rx_deriveAESKey lib x r) = totalChunks r"
  "rx_savedFile (rx_deriveAESKey lib x r) = rx_savedFile r"
  "rx_receivedFileName (rx_deriveAESKey lib x r) = rx_receivedFileName r"
  by (simp_all add: rx_deriveAESKey_def split: sum.splits)

lemma rx_performKeyExchange_fields:
  "receivedChunks (rx_performKeyExchange lib kp rd wr r) = receivedChunks r"
  "totalChunks (rx_performKeyExchange lib kp rd wr r) = totalChunks r"
  "rx_savedFile (rx_performKeyExchange lib kp rd wr r) = rx_savedFile r"
  "rx_receivedFileName (rx_performKeyExchange lib kp rd wr r) = rx_receivedFileName r"
  by (simp_all add: rx_performKeyExchange_def rx_catchKeyExchange_def rx_deriveAESKey_fields
      Let_def split: sum.splits option.splits)

text \<open>While the counter is zero, handling a chunk never reaches the branch that saves
  the file: the buffer holds at least one chunk when the comparison is made.\<close>

lemma processReceivedChunk_no_total:
  assumes "totalChunks r = 0"
  shows "totalChunks (processReceivedChunk lib wr fs x r) = 0"
    and "rx_savedFile (processReceivedChunk lib wr fs x r) = rx_savedFile r"
    and "rx_receivedFileName (processReceivedChunk lib wr fs x r) = rx_receivedFileName r"
  using assms
  by (simp_all add: processReceivedChunk_def Let_def split: sum.splits option.splits)

lemma rx_monitor_no_total:
  assumes "totalChunks r = 0"
  shows "totalChunks (rx_monitor lib wr fs r n) = 0 \<and>
         rx_savedFile (rx_monitor lib wr fs r n) = rx_savedFile r \<and>
         rx_receivedFileName (rx_monitor lib wr fs r n) = rx_receivedFileName r"
proof (cases n)
  case (NotifyError msg)
  with assms show ?thesis by simp
next
  case (NotifyValue v)
  with assms show ?thesis
    by (cases v) (simp_all add: processReceivedChunk_no_total split: sum.splits)
qed

lemma rx_run_no_total:
  "totalChunks r = 0 \<Longrightarrow>
     totalChunks (rx_run lib r ns) = 0 \<and>
     rx_savedFile (rx_run lib r ns) = rx_savedFile r \<and>
     rx_receivedFileName (rx_run lib r ns) = rx_receivedFileName r"
proof (induction ns arbitrary: r)
  case Nil
  then show ?case by simp
next
  case (Cons a ns)
  obtain n wr fs where a: "a = (n, wr, fs)" by (cases a)
  from Cons.prems have "totalChunks (rx_monitor lib wr fs r n) = 0"
    by (simp add: rx_monitor_no_total)
  from Cons.IH[OF this] Cons.prems show ?case
    by (simp add: a rx_monitor_no_total)
qed

text \<open>
  Claim C2. The claim says that a receiver which has received all chunks of a file (at
  least one) detects completion, joins the buffer and writes the output file. In the
  code the counter \<open>totalChunks\<close> is compared with the buffer length but is never given a
  value other than zero: from the first render, through a key exchange and any sequence
  of notifications, no file is ever written and no file name is ever shown.
\<close>

theorem completion_never_detected:
  "rx_savedFile (rx_run lib (rx_performKeyExchange lib kp rd wr rx_initial) ns) = None \<and>
   rx_receivedFileName (rx_run lib (rx_performKeyExchange lib kp rd wr rx_initial) ns) = None"
proof -
  have "totalChunks (rx_performKeyExchange lib kp rd wr rx_initial) = 0"
    by (simp add: rx_performKeyExchange_fields rx_initial_def)
  from rx_run_no_total[OF this, of lib ns] show ?thesis
    by (simp add: rx_performKeyExchange_fields rx_initial_def)
qed

text \<open>A transfer of one chunk on the reference instance: the chunk is in the buffer and
  acknowledged, and no file has been written. Had the counter been set to the number of
  chunks, the same notification would have saved the file.\<close>

lemma one_chunk_transfer_not_saved:
  "receivedChunks (rx_run ref_lib demo_receiver [(NotifyValue (Some demo_value), None, None)])
     = [''QUJD''] \<and>
   rx_writes (rx_run ref_lib demo_receiver [(NotifyValue (Some demo_value), None, None)])
     = [''QUNL''] \<and>
   rx_savedFile (rx_run ref_lib demo_receiver [(NotifyValue (Some demo_value), None, None)])
     = None"
  by code_simp

lemma one_chunk_transfer_with_counter:
  "rx_savedFile
     (rx_run ref_lib (demo_receiver\<lparr>totalChunks := 1\<rparr>)
        [(NotifyValue (Some demo_value), None, None)])
     = Some ''QUJD''"
  by code_simp

section \<open>Receiver: every accepted frame is appended and acknowledged\<close>

lemma processReceivedChunk_aesKey:
  "rx_aesKey (processReceivedChunk lib wr fs x r) = rx_aesKey r"
  by (simp add: processReceivedChunk_def assembleAndSaveFile_def Let_def
      split: sum.splits option.splits)

lemma processReceivedChunk_accept:
  assumes "decryptChunk lib (rx_aesKey r) x = Inr p"
  shows "receivedChunks (processReceivedChunk lib wr fs x r) = receivedChunks r @ [p]"
    and "rx_writes (processReceivedChunk lib None fs x r) =
           rx_writes r @ [base64_encode lib ''ACK'']"
  using assms
  by (simp_all add: processReceivedChunk_def assembleAndSaveFile_def Let_def
      split: option.splits)

lemma processReceivedChunk_grows:
  "\<exists>ys. receivedChunks (processReceivedChunk lib wr fs x r) = receivedChunks r @ ys"
  by (simp add: processReceivedChunk_def assembleAndSaveFile_def Let_def
      split: sum.splits option.splits)

lemma rx_monitor_aesKey: "rx_aesKey (rx_monitor lib wr fs r n) = rx_aesKey r"
proof (cases n)
  case (NotifyError msg)
  then show ?thesis by simp
next
  case (NotifyValue v)
  then show ?thesis
    by (cases v) (simp_all add: processReceivedChunk_aesKey split: sum.splits)
qed

lemma rx_monitor_grows:
  "\<exists>ys. receivedChunks (rx_monitor lib wr fs r n) = receivedChunks r @ ys"
proof (cases n)
  case (NotifyError msg)
  then show ?thesis by simp
next
  case (NotifyValue v)
  then show ?thesis
    by (cases v) (simp_all add: processReceivedChunk_grows split: sum.splits)
qed

lemma rx_monitor_accept:
  assumes "v \<noteq> []" and "base64_decode lib v = Inr x"
    and "decryptChunk lib (rx_aesKey r) x = Inr p"
  shows "receivedChunks (rx_monitor lib wr fs r (NotifyValue (Some v))) = receivedChunks r @ [p]"
    and "rx_writes (rx_monitor lib None fs r (NotifyValue (Some v))) =
           rx_writes r @ [base64_encode lib ''ACK'']"
  using assms by (simp_all add: processReceivedChunk_accept)

lemma rx_run_aesKey: "rx_aesKey (rx_run lib r ns) = rx_aesKey r"
  by (induction ns arbitrary: r) (auto simp: rx_monitor_aesKey)

lemma rx_run_grows: "\<exists>ys. receivedChunks (rx_run lib r ns) = receivedChunks r @ ys"
proof (induction ns arbitrary: r)
  case Nil
  then show ?case by simp
next
  case (Cons a ns)
  obtain n wr fs where a: "a = (n, wr, fs)" by (cases a)
  obtain ys where ys: "receivedChunks (rx_monitor lib wr fs r n) = receivedChunks r @ ys"
    using rx_monitor_grows by blast
  obtain zs where "receivedChunks (rx_run lib (rx_monitor lib wr fs r n) ns) =
      receivedChunks (rx_monitor lib wr fs r n) @ zs"
    using Cons.IH by blast
  with a ys show ?case by simp
qed

text \<open>
  Claim C9, as amended. The claim says that a frame delivered a second time is dropped
  and leaves the reassembly buffer unchanged. The receiver keeps no sequence number and
  has no duplicate detection: a frame it accepted once is, when delivered again (at once
  or after any other notifications), decrypted again, appended to the buffer a second
  time behind everything received so far, and acknowledged again.
\<close>

theorem duplicate_appended_again:
  fixes lib :: crypto_lib and r :: receiver and wr1 fs1 wr2 fs2 :: outcome
    and ns :: "(notification \<times> outcome \<times> outcome) list"
  assumes "v \<noteq> []" and "base64_decode lib v = Inr x"
    and "decryptChunk lib (rx_aesKey r) x = Inr p"
  defines "r1 \<equiv> rx_monitor lib wr1 fs1 r (NotifyValue (Some v))"
  defines "r2 \<equiv> rx_run lib r1 ns"
  shows "take (Suc (length (receivedChunks r))) (receivedChunks r2) = receivedChunks r @ [p] \<and>
         receivedChunks (rx_monitor lib wr2 fs2 r2 (NotifyValue (Some v))) =
           receivedChunks r2 @ [p] \<and>
         rx_writes (rx_monitor lib None fs2 r2 (NotifyValue (Some v))) =
           rx_writes r2 @ [base64_encode lib ''ACK'']"
proof -
  have first: "receivedChunks r1 = receivedChunks r @ [p]"
    unfolding r1_def using assms(1-3) by (rule rx_monitor_accept)
  obtain ys where "receivedChunks r2 = receivedChunks r1 @ ys"
    unfolding r2_def using rx_run_grows by blast
  with first have kept: "take (Suc (length (receivedChunks r))) (receivedChunks r2) =
      receivedChunks r @ [p]"
    by simp
  have "rx_aesKey r2 = rx_aesKey r"
    unfolding r2_def r1_def by (simp only: rx_run_aesKey rx_monitor_aesKey)
  with assms(3) have again: "decryptChunk lib (rx_aesKey r2) x = Inr p"
    by simp
  from kept rx_monitor_accept[OF assms(1,2) again] show ?thesis
    by simp
qed

theorem duplicate_appended_again_witness:
  "demo_value \<noteq> [] \<and>
   base64_decode ref_lib demo_value = Inr demo_frame \<and>
   decryptChunk ref_lib (rx_aesKey demo_receiver) demo_frame = Inr ''QUJD'' \<and>
   take (Suc (length (receivedChunks demo_receiver)))
     (receivedChunks
        (rx_run ref_lib (rx_monitor ref_lib None None demo_receiver (NotifyValue (Some demo_value)))
           [(NotifyError ''lost'', None, None)]))
     = receivedChunks demo_receiver @ [''QUJD''] \<and>
   receivedChunks
     (rx_monitor ref_lib None None
        (rx_run ref_lib (rx_monitor ref_lib None None demo_receiver (NotifyValue (Some demo_value)))
           [(NotifyError ''lost'', None, None)])
        (NotifyValue (Some demo_value)))
     = receivedChunks
         (rx_run ref_lib (rx_monitor ref_lib None None demo_receiver (NotifyValue (Some demo_value)))
            [(NotifyError ''lost'', None, None)]) @ [''QUJD''] \<and>
   rx_writes
     (rx_monitor ref_lib None None
        (rx_run ref_lib (rx_monitor ref_lib None None demo_receiver (NotifyValue (Some demo_value)))
           [(NotifyError ''lost'', None, None)])
        (NotifyValue (Some demo_value)))
     = rx_writes
         (rx_run ref_lib (rx_monitor ref_lib None None demo_receiver (NotifyValue (Some demo_value)))
            [(NotifyError ''lost'', None, None)]) @ [base64_encode ref_lib ''ACK'']"
proof -
  have v: "demo_value \<noteq> []" by code_simp
  have d: "base64_decode ref_lib demo_value = Inr demo_frame" by code_simp
  have p: "decryptChunk ref_lib (rx_aesKey demo_receiver) demo_frame = Inr ''QUJD''"
    by code_simp
  from duplicate_appended_again[OF v d p, of None None "[(NotifyError ''lost'', None, None)]" None None]
    v d p
  show ?thesis by blast
qed

theorem duplicate_appended_counterexample:
  "receivedChunks
     (rx_run ref_lib demo_receiver [(NotifyValue (Some demo_value), None, None)])
   = [''QUJD''] \<and>
   receivedChunks
     (rx_run ref_lib demo_receiver
        [(NotifyValue (Some demo_value), None, None),
         (NotifyValue (Some demo_value), None, None)])
   = [''QUJD'', ''QUJD'']"
  by code_simp

section \<open>Acknowledgments\<close>

lemma tx_monitor_ack:
  "snd (tx_monitor lib s n) = (if is_ack lib (Notify n) then [AckAccepted] else []) \<and>
   ackReceived (fst (tx_monitor lib s n)) = (is_ack lib (Notify n) \<or> ackReceived s)"
proof (cases n)
  case (NotifyError msg)
  then show ?thesis by simp
next
  case (NotifyValue v)
  then show ?thesis by (cases v) (auto split: sum.splits)
qed

text \<open>
  Claim C8, as amended. The claim says that an acknowledgment carries the 4-byte
  big-endian sequence number of the frame it confirms and that the sender accepts it
  only for the sequence number outstanding. In the code no message carries a sequence
  number. For every frame it decrypts, the receiver writes exactly one acknowledgment
  (provided the write itself succeeds), and its content is the transport encoding of
  the constant text \<open>ACK\<close>. The sender treats a notification as an acknowledgment exactly
  when its value decodes to \<open>ACK\<close>, whatever its control point, so whichever frame is
  outstanding.
\<close>

theorem ack_is_constant:
  "(v \<noteq> [] \<and> base64_decode lib v = Inr x \<and> decryptChunk lib (rx_aesKey r) x = Inr p \<longrightarrow>
      rx_writes (rx_monitor lib None fs r (NotifyValue (Some v))) =
        rx_writes r @ [base64_encode lib ''ACK'']) \<and>
   snd (tx_step lib rk (s, pc) (Notify n)) = (if is_ack lib (Notify n) then [AckAccepted] else []) \<and>
   ackReceived (fst (fst (tx_step lib rk (s, pc) (Notify n)))) =
     (is_ack lib (Notify n) \<or> ackReceived s)"
proof -
  have "snd (tx_step lib rk (s, pc) (Notify n)) = snd (tx_monitor lib s n)"
    and "fst (fst (tx_step lib rk (s, pc) (Notify n))) = fst (tx_monitor lib s n)"
    by (simp_all split: prod.splits)
  with tx_monitor_ack[of lib s n] rx_monitor_accept(2)[of v lib x r p fs]
  show ?thesis by simp
qed

theorem ack_is_constant_witness:
  "demo_value \<noteq> [] \<and> base64_decode ref_lib demo_value = Inr demo_frame \<and>
   decryptChunk ref_lib (rx_aesKey demo_receiver) demo_frame = Inr ''QUJD'' \<and>
   rx_writes (rx_monitor ref_lib None None demo_receiver (NotifyValue (Some demo_value))) =
     rx_writes demo_receiver @ [base64_encode ref_lib ''ACK'']"
proof -
  have v: "demo_value \<noteq> []" by code_simp
  have d: "base64_decode ref_lib demo_value = Inr demo_frame" by code_simp
  have p: "decryptChunk ref_lib (rx_aesKey demo_receiver) demo_frame = Inr ''QUJD''"
    by code_simp
  from ack_is_constant[of demo_value ref_lib demo_frame demo_receiver "''QUJD''" None] v d p
  show ?thesis by blast
qed

theorem ack_content_counterexample:
  "rx_writes (rx_monitor ref_lib None None demo_receiver (NotifyValue (Some demo_value))) =
     [''QUNL''] \<and>
   base64_decode ref_lib ''QUNL'' = Inr ''ACK'' \<and>
   ''QUNL'' \<noteq> spec_be32 0 \<and> ''ACK'' \<noteq> spec_be32 0"
  by code_simp

section \<open>Disconnecting\<close>

text \<open>
  Claim C10, as amended. The claim says that a disconnect discards the ephemeral key
  pair, the shared secret and the session key and releases the reassembly buffer. In
  the code the receiver's handler for a transport disconnect releases the buffer and
  resets the chunk counter; the receiver's Disconnect button does the same when a
  device is connected and nothing otherwise; the sender's Disconnect button clears the
  connected device, the picked file and the error message when a device is connected
  and does nothing otherwise (the sender has no reassembly buffer). None of the three changes the
  ephemeral key pair, the shared secret or the session key: they survive the disconnect.
\<close>

theorem disconnect_keeps_keys:
  "receivedChunks (onDeviceDisconnected err r) = [] \<and>
   totalChunks (onDeviceDisconnected err r) = 0 \<and>
   rx_connectedDevice (onDeviceDisconnected err r) = None \<and>
   rx_ephemeralKeyPair (onDeviceDisconnected err r) = rx_ephemeralKeyPair r \<and>
   rx_sharedSecret (onDeviceDisconnected err r) = rx_sharedSecret r \<and>
   rx_aesKey (onDeviceDisconnected err r) = rx_aesKey r \<and>
   rx_disconnectDevice r =
     (if rx_connectedDevice r = None then r
      else r\<lparr>rx_connectedDevice := None, rx_receivedFileName := None,
             receivedChunks := [], totalChunks := 0\<rparr>) \<and>
   rx_connectedDevice (rx_disconnectDevice r) = None \<and>
   receivedChunks (rx_disconnectDevice r) =
     (if rx_connectedDevice r = None then receivedChunks r else []) \<and>
   totalChunks (rx_disconnectDevice r) =
     (if rx_connectedDevice r = None then totalChunks r else 0) \<and>
   rx_ephemeralKeyPair (rx_disconnectDevice r) = rx_ephemeralKeyPair r \<and>
   rx_sharedSecret (rx_disconnectDevice r) = rx_sharedSecret r \<and>
   rx_aesKey (rx_disconnectDevice r) = rx_aesKey r \<and>
   tx_disconnectDevice s =
     (if tx_connectedDevice s = None then s
      else s\<lparr>tx_connectedDevice := None, tx_fileInfo := None, tx_error := None\<rparr>) \<and>
   tx_connectedDevice (tx_disconnectDevice s) = None \<and>
   tx_fileInfo (tx_disconnectDevice s) =
     (if tx_connectedDevice s = None then tx_fileInfo s else None) \<and>
   tx_ephemeralKeyPair (tx_disconnectDevice s) = tx_ephemeralKeyPair s \<and>
   tx_sharedSecret (tx_disconnectDevice s) = tx_sharedSecret s \<and>
   tx_aesKey (tx_disconnectDevice s) = tx_aesKey s"
  by (simp add: onDeviceDisconnected_def rx_disconnectDevice_def tx_disconnectDevice_def
      split: option.splits)

theorem keys_survive_counterexample:
  "rx_ephemeralKeyPair
     (onDeviceDisconnected None
        (rx_performKeyExchange ref_lib demo_keypair (Inr (Some demo_peer_value)) None rx_initial))
     = Some demo_keypair \<and>
   rx_sharedSecret
     (onDeviceDisconnected None
        (rx_performKeyExchange ref_lib demo_keypair (Inr (Some demo_peer_value)) None rx_initial))
     \<noteq> None \<and>
   rx_aesKey
     (onDeviceDisconnected None
        (rx_performKeyExchange ref_lib demo_keypair (Inr (Some demo_peer_value)) None rx_initial))
     \<noteq> None"
  by code_simp

section \<open>Sender: flow control\<close>

lemma loopHead_ackReceived: "ackReceived (fst (loopHead lib rk chunks i s)) = ackReceived s"
  by (simp add: loopHead_def split: sum.splits)

lemma sendFileChunks_ackReceived:
  "ackReceived (fst (sendFileChunks lib rk file s)) = ackReceived s"
  by (simp add: sendFileChunks_def loopHead_ackReceived Let_def split: sum.splits)

lemma stop_and_wait_weaken: "stop_and_wait True out \<Longrightarrow> stop_and_wait False out"
proof (cases out)
  case Nil
  then show ?thesis by simp
next
  case (Cons a rest)
  assume "stop_and_wait True out"
  with Cons show ?thesis by (cases a) simp_all
qed

text \<open>One event keeps the discipline: what the event emits, followed by anything that
  respects the flag afterwards, respects the flag before.\<close>

lemma tx_step_stop_and_wait:
  assumes "tx_step lib rk (s, pc) e = ((s1, pc1), out)"
    and "stop_and_wait (\<not> ackReceived s1) rest"
  shows "stop_and_wait (\<not> ackReceived s) (out @ rest)"
proof (cases e)
  case (Notify n)
  with assms(1) have "out = snd (tx_monitor lib s n)" and "s1 = fst (tx_monitor lib s n)"
    by (auto split: prod.splits)
  with tx_monitor_ack[of lib s n] assms(2) show ?thesis
    by (cases "is_ack lib (Notify n)") simp_all
next
  case (Wake wr)
  show ?thesis
  proof (cases pc)
    case (Waiting chunks i payload)
    show ?thesis
    proof (cases "ackReceived s")
      case True
      show ?thesis
      proof (cases wr)
        case None
        with assms(1) Wake Waiting True
        have "out = [Wrote payload]"
          and "s1 = fst (loopHead lib rk chunks (i + 1) (s\<lparr>ackReceived := False\<rparr>))"
          by (auto simp: Let_def split: prod.splits)
        with assms(2) True show ?thesis
          by (simp add: loopHead_ackReceived)
      next
        case (Some msg)
        with assms(1) Wake Waiting True
        have "out = []" and "\<not> ackReceived s1"
          by (auto simp: Let_def)
        with assms(2) True show ?thesis
          by (simp add: stop_and_wait_weaken)
      qed
    next
      case False
      with assms Wake Waiting show ?thesis by auto
    qed
  next
    case Completed
    with assms Wake show ?thesis by auto
  next
    case Stopped
    with assms Wake show ?thesis by auto
  qed
qed

lemma tx_run_stop_and_wait:
  "stop_and_wait (\<not> ackReceived (fst c)) (snd (tx_run lib rk c es))"
proof (induction es arbitrary: c)
  case Nil
  then show ?case by simp
next
  case (Cons e es)
  obtain s pc where c: "c = (s, pc)" by (cases c)
  obtain s1 pc1 out where step: "tx_step lib rk (s, pc) e = ((s1, pc1), out)"
    by (metis prod.exhaust)
  have "stop_and_wait (\<not> ackReceived s1) (snd (tx_run lib rk (s1, pc1) es))"
    using Cons.IH[of "(s1, pc1)"] by simp
  from tx_step_stop_and_wait[OF step this] show ?case
    by (auto simp: c step split: prod.splits)
qed

lemma tx_run_released_by_ack:
  assumes "is_ack lib e"
  shows "snd (tx_run lib rk (s, Waiting chunks i payload) [e, Wake None]) =
           [AckAccepted, Wrote payload]"
proof -
  from assms obtain n where e: "e = Notify n"
    by (cases e) simp_all
  obtain s1 out where m: "tx_monitor lib s n = (s1, out)"
    by (cases "tx_monitor lib s n")
  with tx_monitor_ack[of lib s n] assms e have "out = [AckAccepted]" and "ackReceived s1"
    by simp_all
  with e m show ?thesis
    by (simp add: Let_def split: prod.splits)
qed

text \<open>
  Claim C6, as amended. The claim says that frame \<open>i + 1\<close> is never written before an
  acknowledgment for frame \<open>i\<close> has been received. What holds in every run of
  \<^verbatim>\<open>sendFileChunks\<close>, under every interleaving of notifications and wake-ups and every
  outcome of the external calls, is this: the values written and the acknowledgments
  accepted alternate, so frame \<open>i + 1\<close> is never written before the sender has accepted,
  after writing frame \<open>i\<close>, a notification that decodes to \<open>ACK\<close> (a frame counts as
  outstanding at the start exactly when \<^verbatim>\<open>ackReceived.current\<close> is false). That
  notification is not tied to frame \<open>i\<close>: whatever chunk the loop is waiting to write,
  any event that delivers \<open>ACK\<close> releases it.
\<close>

theorem stop_and_wait_holds:
  "stop_and_wait (\<not> ackReceived s) (snd (tx_run lib rk (sendFileChunks lib rk file s) es)) \<and>
   (is_ack lib e \<and> snd c = Waiting chunks i payload \<longrightarrow>
      snd (tx_run lib rk c [e, Wake None]) = [AckAccepted, Wrote payload])"
proof -
  have "stop_and_wait (\<not> ackReceived s) (snd (tx_run lib rk (sendFileChunks lib rk file s) es))"
    using tx_run_stop_and_wait[of "sendFileChunks lib rk file s" lib rk es]
    by (simp add: sendFileChunks_ackReceived)
  moreover have "snd (tx_run lib rk c [e, Wake None]) = [AckAccepted, Wrote payload]"
    if "is_ack lib e" and "snd c = Waiting chunks i payload"
    using tx_run_released_by_ack[OF that(1), of rk "fst c" chunks i payload] that(2)
    by (cases c) simp
  ultimately show ?thesis by blast
qed

theorem stop_and_wait_holds_witness:
  "is_ack ref_lib (Notify (NotifyValue (Some ''QUNL''))) \<and>
   snd (fst (tx_run ref_lib demo_rk
          (sendFileChunks ref_lib demo_rk (Inr demo_data) demo_sender) [Wake None])) =
     Waiting (chunkBase64String demo_data) 1
       (ref_encode (demo_iv @ ref_encode (drop 180 demo_data @ ref_tag demo_key demo_iv))) \<and>
   snd (tx_run ref_lib demo_rk
          (fst (tx_run ref_lib demo_rk
             (sendFileChunks ref_lib demo_rk (Inr demo_data) demo_sender) [Wake None]))
          [Notify (NotifyValue (Some ''QUNL'')), Wake None]) =
     [AckAccepted,
      Wrote (ref_encode (demo_iv @ ref_encode (drop 180 demo_data @ ref_tag demo_key demo_iv)))]"
proof -
  have a: "is_ack ref_lib (Notify (NotifyValue (Some ''QUNL'')))"
    by code_simp
  have w: "snd (fst (tx_run ref_lib demo_rk
          (sendFileChunks ref_lib demo_rk (Inr demo_data) demo_sender) [Wake None])) =
     Waiting (chunkBase64String demo_data) 1
       (ref_encode (demo_iv @ ref_encode (drop 180 demo_data @ ref_tag demo_key demo_iv)))"
    by code_simp
  from stop_and_wait_holds[of demo_sender ref_lib demo_rk "Inr demo_data" "[]"
      "Notify (NotifyValue (Some ''QUNL''))"
      "fst (tx_run ref_lib demo_rk
          (sendFileChunks ref_lib demo_rk (Inr demo_data) demo_sender) [Wake None])"] a w
  show ?thesis by blast
qed

text \<open>A receiver is delivered one frame it accepts, twice, and no other frame: it writes
  two acknowledgments. A sender of a file of three chunks that is notified of exactly
  these two acknowledgments writes all three frames. The value delivered to the
  receiver is not the sender's second frame, for which no acknowledgment was ever
  written; the third frame is written all the same.\<close>

theorem ack_not_for_frame_counterexample:
  "rx_writes
     (rx_run ref_lib demo_receiver
        [(NotifyValue (Some demo_value), None, None),
         (NotifyValue (Some demo_value), None, None)])
     = [''QUNL'', ''QUNL''] \<and>
   length (writes_of (snd (tx_run ref_lib demo_rk
      (sendFileChunks ref_lib demo_rk (Inr demo_data_three_chunks) demo_sender)
      [Wake None, Notify (NotifyValue (Some ''QUNL'')), Wake None,
       Notify (NotifyValue (Some ''QUNL'')), Wake None]))) = 3 \<and>
   filter (\<lambda>x. x = AckAccepted) (snd (tx_run ref_lib demo_rk
      (sendFileChunks ref_lib demo_rk (Inr demo_data_three_chunks) demo_sender)
      [Wake None, Notify (NotifyValue (Some ''QUNL'')), Wake None,
       Notify (NotifyValue (Some ''QUNL'')), Wake None])) = [AckAccepted, AckAccepted] \<and>
   writes_of (snd (tx_run ref_lib demo_rk
      (sendFileChunks ref_lib demo_rk (Inr demo_data_three_chunks) demo_sender)
      [Wake None, Notify (NotifyValue (Some ''QUNL'')), Wake None,
       Notify (NotifyValue (Some ''QUNL'')), Wake None])) ! 1 \<noteq> demo_value"
  by code_simp

text \<open>A run over a file of two chunks in which the acknowledgment of the first frame
  arrives: two frames are written, with the acknowledgment in between, and the transfer
  is reported complete without waiting for the acknowledgment of the last frame.\<close>

lemma two_chunk_run:
  "map (case_obs (\<lambda>w. length w) 0)
     (snd (tx_run ref_lib demo_rk (sendFileChunks ref_lib demo_rk (Inr demo_data) demo_sender)
        [Wake None, Wake None, Notify (NotifyValue (Some ''QUNL'')), Wake None]))
     = [384, 0, 64] \<and>
   snd (fst (tx_run ref_lib demo_rk (sendFileChunks ref_lib demo_rk (Inr demo_data) demo_sender)
        [Wake None, Wake None, Notify (NotifyValue (Some ''QUNL'')), Wake None]))
     = Completed"
  by code_simp

section \<open>Sender: no timeout\<close>

lemma tx_step_no_ack:
  assumes "\<not> ackReceived s" and "\<not> is_ack lib e"
  shows "snd (tx_step lib rk (s, pc) e) = [] \<and>
         snd (fst (tx_step lib rk (s, pc) e)) = pc \<and>
         \<not> ackReceived (fst (fst (tx_step lib rk (s, pc) e)))"
proof (cases e)
  case (Notify n)
  with assms tx_monitor_ack[of lib s n] show ?thesis
    by (auto split: prod.splits)
next
  case (Wake wr)
  with assms show ?thesis by (cases pc) simp_all
qed

lemma tx_run_no_ack:
  assumes "\<not> ackReceived s" and "list_all (\<lambda>e. \<not> is_ack lib e) es"
  shows "snd (tx_run lib rk (s, pc) es) = [] \<and>
         snd (fst (tx_run lib rk (s, pc) es)) = pc \<and>
         \<not> ackReceived (fst (fst (tx_run lib rk (s, pc) es)))"
  using assms
proof (induction es arbitrary: s)
  case Nil
  then show ?case by simp
next
  case (Cons e es)
  obtain s1 pc1 out where step: "tx_step lib rk (s, pc) e = ((s1, pc1), out)"
    by (metis prod.exhaust)
  from Cons.prems have "\<not> is_ack lib e" and rest: "list_all (\<lambda>e. \<not> is_ack lib e) es"
    by simp_all
  from tx_step_no_ack[OF Cons.prems(1) this(1), of rk pc] step
  have "out = []" and "pc1 = pc" and "\<not> ackReceived s1"
    by simp_all
  with Cons.IH[OF \<open>\<not> ackReceived s1\<close> rest] step show ?case
    by (simp split: prod.splits)
qed

lemma tx_run_after_write:
  assumes "ackReceived s" and "list_all (\<lambda>e. \<not> is_ack lib e) es"
  shows "snd (tx_run lib rk (s, Waiting chunks i payload) (Wake None # es)) = [Wrote payload] \<and>
         snd (fst (tx_run lib rk (s, Waiting chunks i payload) (Wake None # es))) =
           snd (loopHead lib rk chunks (i + 1) (s\<lparr>ackReceived := False\<rparr>))"
proof -
  obtain s1 pc1 where lh: "loopHead lib rk chunks (i + 1) (s\<lparr>ackReceived := False\<rparr>) = (s1, pc1)"
    by (cases "loopHead lib rk chunks (i + 1) (s\<lparr>ackReceived := False\<rparr>)")
  have "\<not> ackReceived s1"
    using loopHead_ackReceived[of lib rk chunks "i + 1" "s\<lparr>ackReceived := False\<rparr>"] lh by simp
  from tx_run_no_ack[OF this assms(2), of rk pc1] assms(1) lh show ?thesis
    by (auto simp: Let_def split: prod.splits)
qed

text \<open>
  Claim C7, as amended. The claim says that the sender resends a frame whose
  acknowledgment does not arrive in time, a bounded number of times, and then fails.
  The transfer loop has no timeout and no retry. Once it has written frame \<open>i\<close>, and for
  as long as no acknowledgment arrives, however many times it wakes up and whatever
  else is notified, the frame is not written again and nothing else is written. What
  the sender does instead depends on the frame: after the last frame it has left the
  loop and reported the transfer complete, without waiting for any acknowledgment;
  after any other frame it sits in the wait loop of the next chunk indefinitely (or
  has stopped with an error, if encrypting the next chunk failed).
\<close>

theorem waits_indefinitely:
  assumes "ackReceived (fst c)" and "list_all (\<lambda>e. \<not> is_ack lib e) es"
    and "snd c = Waiting chunks i payload"
  shows "snd (tx_run lib rk c (Wake None # es)) = [Wrote payload] \<and>
         (length chunks \<le> i + 1 \<longrightarrow>
            snd (fst (tx_run lib rk c (Wake None # es))) = Completed) \<and>
         (i + 1 < length chunks \<longrightarrow>
            snd (fst (tx_run lib rk c (Wake None # es))) =
              (case encryptChunk lib (tx_aesKey (fst c)) (rk (i + 1)) (chunks ! (i + 1)) of
                 Inl msg \<Rightarrow> Stopped
               | Inr encryptedChunk \<Rightarrow>
                   Waiting chunks (i + 1) (base64_encode lib encryptedChunk)))"
  using tx_run_after_write[OF assms(1,2), of rk chunks i payload] assms(3)
  by (cases c) (auto simp: loopHead_def split: sum.splits)

theorem waits_indefinitely_witness:
  "ackReceived (fst (sendFileChunks ref_lib demo_rk (Inr demo_data) demo_sender)) \<and>
   list_all (\<lambda>e. \<not> is_ack ref_lib e)
     [Wake None, Notify (NotifyValue (Some ''QUJD'')), Notify (NotifyError ''x''), Wake None] \<and>
   snd (sendFileChunks ref_lib demo_rk (Inr demo_data) demo_sender) =
     Waiting (chunkBase64String demo_data) 0
       (ref_encode (demo_iv @ ref_encode (take 180 demo_data @ ref_tag demo_key demo_iv))) \<and>
   0 + 1 < length (chunkBase64String demo_data) \<and>
   snd (tx_run ref_lib demo_rk (sendFileChunks ref_lib demo_rk (Inr demo_data) demo_sender)
          [Wake None, Wake None, Notify (NotifyValue (Some ''QUJD'')), Notify (NotifyError ''x''),
           Wake None])
     = [Wrote (ref_encode (demo_iv @ ref_encode (take 180 demo_data @ ref_tag demo_key demo_iv)))] \<and>
   snd (fst (tx_run ref_lib demo_rk (sendFileChunks ref_lib demo_rk (Inr demo_data) demo_sender)
          [Wake None, Wake None, Notify (NotifyValue (Some ''QUJD'')), Notify (NotifyError ''x''),
           Wake None]))
     = Waiting (chunkBase64String demo_data) 1
         (ref_encode (demo_iv @ ref_encode (drop 180 demo_data @ ref_tag demo_key demo_iv))) \<and>
   snd (sendFileChunks ref_lib demo_rk (Inr ''QUJD'') demo_sender) =
     Waiting [''QUJD''] 0 (ref_encode (demo_iv @ ref_encode (''QUJD'' @ ref_tag demo_key demo_iv))) \<and>
   length [''QUJD''] \<le> 0 + 1 \<and>
   snd (tx_run ref_lib demo_rk (sendFileChunks ref_lib demo_rk (Inr ''QUJD'') demo_sender)
          [Wake None, Wake None, Notify (NotifyValue (Some ''QUJD'')), Notify (NotifyError ''x''),
           Wake None])
     = [Wrote (ref_encode (demo_iv @ ref_encode (''QUJD'' @ ref_tag demo_key demo_iv)))] \<and>
   snd (fst (tx_run ref_lib demo_rk (sendFileChunks ref_lib demo_rk (Inr ''QUJD'') demo_sender)
          [Wake None, Wake None, Notify (NotifyValue (Some ''QUJD'')), Notify (NotifyError ''x''),
           Wake None]))
     = Completed"
proof -
  let ?es = "[Wake None, Notify (NotifyValue (Some ''QUJD'')), Notify (NotifyError ''x''), Wake None]"
  have n: "list_all (\<lambda>e. \<not> is_ack ref_lib e) ?es"
    by code_simp
  have a2: "ackReceived (fst (sendFileChunks ref_lib demo_rk (Inr demo_data) demo_sender))"
    by code_simp
  have w2: "snd (sendFileChunks ref_lib demo_rk (Inr demo_data) demo_sender) =
     Waiting (chunkBase64String demo_data) 0
       (ref_encode (demo_iv @ ref_encode (take 180 demo_data @ ref_tag demo_key demo_iv)))"
    by code_simp
  have l2: "0 + 1 < length (chunkBase64String demo_data)"
    by code_simp
  have e2: "(case encryptChunk ref_lib
                 (tx_aesKey (fst (sendFileChunks ref_lib demo_rk (Inr demo_data) demo_sender)))
                 (demo_rk (0 + 1)) (chunkBase64String demo_data ! (0 + 1)) of
               Inl msg \<Rightarrow> Stopped
             | Inr encryptedChunk \<Rightarrow>
                 Waiting (chunkBase64String demo_data) (0 + 1)
                   (base64_encode ref_lib encryptedChunk))
     = Waiting (chunkBase64String demo_data) 1
         (ref_encode (demo_iv @ ref_encode (drop 180 demo_data @ ref_tag demo_key demo_iv)))"
    by code_simp
  have a1: "ackReceived (fst (sendFileChunks ref_lib demo_rk (Inr ''QUJD'') demo_sender))"
    by code_simp
  have w1: "snd (sendFileChunks ref_lib demo_rk (Inr ''QUJD'') demo_sender) =
     Waiting [''QUJD''] 0 (ref_encode (demo_iv @ ref_encode (''QUJD'' @ ref_tag demo_key demo_iv)))"
    by code_simp
  have l1: "length [''QUJD''] \<le> 0 + 1"
    by simp
  from waits_indefinitely[OF a2 n w2, of demo_rk] l2 e2
  have two: "snd (tx_run ref_lib demo_rk (sendFileChunks ref_lib demo_rk (Inr demo_data) demo_sender)
          (Wake None # ?es))
     = [Wrote (ref_encode (demo_iv @ ref_encode (take 180 demo_data @ ref_tag demo_key demo_iv)))] \<and>
   snd (fst (tx_run ref_lib demo_rk (sendFileChunks ref_lib demo_rk (Inr demo_data) demo_sender)
          (Wake None # ?es)))
     = Waiting (chunkBase64String demo_data) 1
         (ref_encode (demo_iv @ ref_encode (drop 180 demo_data @ ref_tag demo_key demo_iv)))"
    by simp
  from waits_indefinitely[OF a1 n w1, of demo_rk] l1
  have one: "snd (tx_run ref_lib demo_rk (sendFileChunks ref_lib demo_rk (Inr ''QUJD'') demo_sender)
          (Wake None # ?es))
     = [Wrote (ref_encode (demo_iv @ ref_encode (''QUJD'' @ ref_tag demo_key demo_iv)))] \<and>
   snd (fst (tx_run ref_lib demo_rk (sendFileChunks ref_lib demo_rk (Inr ''QUJD'') demo_sender)
          (Wake None # ?es)))
     = Completed"
    by simp
  from a2 n w2 l2 two w1 l1 one show ?thesis by blast
qed

theorem no_retransmission_counterexample:
  "length (writes_of (snd (tx_run ref_lib demo_rk
      (sendFileChunks ref_lib demo_rk (Inr demo_data) demo_sender)
      (replicate 50 (Wake None))))) = 1 \<and>
   tx_error (fst (fst (tx_run ref_lib demo_rk
      (sendFileChunks ref_lib demo_rk (Inr demo_data) demo_sender)
      (replicate 50 (Wake None))))) = None \<and>
   (case snd (fst (tx_run ref_lib demo_rk
      (sendFileChunks ref_lib demo_rk (Inr demo_data) demo_sender)
      (replicate 50 (Wake None)))) of Waiting chunks i payload \<Rightarrow> i = 1 | _ \<Rightarrow> False)"
  by code_simp

section \<open>Sender: what a frame consists of\<close>

lemma chunkLoop_acc: "chunkLoop str i (acc @ cs) = acc @ chunkLoop str i cs"
proof (induction str i cs arbitrary: acc rule: chunkLoop.induct)
  case (1 base64Str index chunks)
  show ?case
  proof (cases "index < length base64Str")
    case True
    with "1.IH"[of acc] show ?thesis
      by (simp add: chunkLoop.simps[of base64Str index])
  next
    case False
    then show ?thesis by (simp add: chunkLoop.simps[of base64Str index])
  qed
qed

lemma chunkLoop_unfold:
  "chunkLoop str i [] =
     (if i < length str then slice str i (i + CHUNK_SIZE) # chunkLoop str (i + CHUNK_SIZE) []
      else [])"
  using chunkLoop_acc[of str "i + CHUNK_SIZE" "[slice str i (i + CHUNK_SIZE)]" "[]"]
  by (simp add: chunkLoop.simps[of str i "[]"])

lemma chunkLoop_nth_length:
  "(k + 1) * CHUNK_SIZE + i \<le> length str \<Longrightarrow>
     k < length (chunkLoop str i []) \<and> length (chunkLoop str i [] ! k) = CHUNK_SIZE"
proof (induction k arbitrary: i)
  case 0
  then have "i < length str" by (simp add: CHUNK_SIZE_def)
  with 0 show ?case
    by (simp add: chunkLoop_unfold[of str i] slice_def)
next
  case (Suc k)
  then have lt: "i < length str" by (simp add: CHUNK_SIZE_def)
  from Suc.prems have "(k + 1) * CHUNK_SIZE + (i + CHUNK_SIZE) \<le> length str"
    by (simp add: algebra_simps)
  from Suc.IH[OF this] lt show ?case
    by (simp add: chunkLoop_unfold[of str i])
qed

lemma full_chunk_length:
  "(k + 1) * CHUNK_SIZE \<le> length base64Str \<Longrightarrow>
     length (chunkBase64String base64Str ! k) = CHUNK_SIZE"
  using chunkLoop_nth_length[of k 0 base64Str] by (simp add: chunkBase64String_def)

text \<open>Chunk \<open>k\<close> is the slice of at most \<open>CHUNK_SIZE\<close> characters that starts at character
  \<open>k * CHUNK_SIZE\<close> of the text.\<close>

lemma chunkLoop_nth:
  "k < length (chunkLoop str i []) \<Longrightarrow>
     i + k * CHUNK_SIZE < length str \<and>
     chunkLoop str i [] ! k = take CHUNK_SIZE (drop (i + k * CHUNK_SIZE) str)"
proof (induction k arbitrary: i)
  case 0
  then have "i < length str"
    by (cases "i < length str") (simp_all add: chunkLoop_unfold[of str i])
  then show ?case
    by (simp add: chunkLoop_unfold[of str i] slice_def)
next
  case (Suc k)
  then have lt: "i < length str"
    by (cases "i < length str") (simp_all add: chunkLoop_unfold[of str i])
  with Suc.prems have "k < length (chunkLoop str (i + CHUNK_SIZE) [])"
    by (simp add: chunkLoop_unfold[of str i])
  from Suc.IH[OF this]
  have "i + CHUNK_SIZE + k * CHUNK_SIZE < length str"
    and "chunkLoop str (i + CHUNK_SIZE) [] ! k =
         take CHUNK_SIZE (drop (i + CHUNK_SIZE + k * CHUNK_SIZE) str)"
    by simp_all
  moreover have "i + CHUNK_SIZE + k * CHUNK_SIZE = i + Suc k * CHUNK_SIZE"
    by simp
  ultimately show ?case
    using lt by (simp add: chunkLoop_unfold[of str i])
qed

lemma chunkBase64String_nth:
  "k < length (chunkBase64String base64Str) \<Longrightarrow>
     k * CHUNK_SIZE < length base64Str \<and>
     chunkBase64String base64Str ! k = take CHUNK_SIZE (drop (k * CHUNK_SIZE) base64Str)"
  using chunkLoop_nth[of k base64Str 0] by (simp add: chunkBase64String_def)

lemma writes_of_append: "writes_of (xs @ ys) = writes_of xs @ writes_of ys"
  by (induction xs rule: writes_of.induct) simp_all

lemma loopHead_aesKey: "tx_aesKey (fst (loopHead lib rk chunks i s)) = tx_aesKey s"
  by (simp add: loopHead_def split: sum.splits)

lemma loopHead_pc_frames:
  "pc_frames lib (tx_aesKey s) rk chunks i (snd (loopHead lib rk chunks i s))"
  by (auto simp: loopHead_def encryptChunk_def frame_payload_def split: sum.splits)

lemma tx_monitor_aesKey: "tx_aesKey (fst (tx_monitor lib s n)) = tx_aesKey s"
proof (cases n)
  case (NotifyError msg)
  then show ?thesis by simp
next
  case (NotifyValue v)
  then show ?thesis by (cases v) (auto split: sum.splits)
qed

lemma writes_of_monitor: "writes_of (snd (tx_monitor lib s n)) = []"
  using tx_monitor_ack[of lib s n] by simp

text \<open>One event: either nothing is written and the control point keeps its chunk, or the
  payload of chunk \<open>i\<close> is written and the control point moves to chunk \<open>i + 1\<close>.\<close>

lemma tx_step_frames:
  assumes "pc_frames lib (tx_aesKey s) rk chunks i pc"
    and "tx_step lib rk (s, pc) e = ((s1, pc1), out)"
  shows "tx_aesKey s1 = tx_aesKey s \<and>
         ((writes_of out = [] \<and> pc_frames lib (tx_aesKey s) rk chunks i pc1) \<or>
          (\<exists>w. writes_of out = [w] \<and> frame_payload lib (tx_aesKey s) rk chunks i w \<and>
               pc_frames lib (tx_aesKey s) rk chunks (Suc i) pc1))"
proof (cases e)
  case (Notify n)
  with assms(2) have "out = snd (tx_monitor lib s n)" "s1 = fst (tx_monitor lib s n)" "pc1 = pc"
    by (auto split: prod.splits)
  with assms(1) show ?thesis
    by (simp add: tx_monitor_aesKey writes_of_monitor)
next
  case (Wake wr)
  show ?thesis
  proof (cases pc)
    case (Waiting cs j payload)
    with assms(1) have cs: "cs = chunks" "j = i"
      and fp: "frame_payload lib (tx_aesKey s) rk chunks i payload"
      by simp_all
    show ?thesis
    proof (cases "ackReceived s")
      case True
      show ?thesis
      proof (cases wr)
        case None
        let ?s = "s\<lparr>ackReceived := False\<rparr>"
        from assms(2) Wake Waiting True None cs
        have "out = [Wrote payload]" "s1 = fst (loopHead lib rk chunks (Suc i) ?s)"
          "pc1 = snd (loopHead lib rk chunks (Suc i) ?s)"
          by (auto simp: Let_def)
        with fp loopHead_pc_frames[of lib ?s rk chunks "Suc i"] show ?thesis
          by (simp add: loopHead_aesKey)
      next
        case (Some msg)
        with assms(2) Wake Waiting True show ?thesis
          by (auto simp: Let_def)
      qed
    next
      case False
      with assms Wake Waiting show ?thesis by auto
    qed
  next
    case Completed
    with assms Wake show ?thesis by auto
  next
    case Stopped
    with assms Wake show ?thesis by auto
  qed
qed

lemma tx_run_frames:
  "pc_frames lib (tx_aesKey s) rk chunks i pc \<Longrightarrow>
     are_frames lib (tx_aesKey s) rk chunks i (writes_of (snd (tx_run lib rk (s, pc) es)))"
proof (induction es arbitrary: s pc i)
  case Nil
  then show ?case by simp
next
  case (Cons e es)
  obtain s1 pc1 out where step: "tx_step lib rk (s, pc) e = ((s1, pc1), out)"
    by (metis prod.exhaust)
  have run: "writes_of (snd (tx_run lib rk (s, pc) (e # es))) =
      writes_of out @ writes_of (snd (tx_run lib rk (s1, pc1) es))"
    by (simp add: step writes_of_append split: prod.splits)
  from tx_step_frames[OF Cons.prems step]
  have key: "tx_aesKey s1 = tx_aesKey s"
    and alt: "(writes_of out = [] \<and> pc_frames lib (tx_aesKey s) rk chunks i pc1) \<or>
          (\<exists>w. writes_of out = [w] \<and> frame_payload lib (tx_aesKey s) rk chunks i w \<and>
               pc_frames lib (tx_aesKey s) rk chunks (Suc i) pc1)"
    by simp_all
  from alt show ?case
  proof
    assume a: "writes_of out = [] \<and> pc_frames lib (tx_aesKey s) rk chunks i pc1"
    with Cons.IH[of s1 i pc1] key run show ?thesis by simp
  next
    assume "\<exists>w. writes_of out = [w] \<and> frame_payload lib (tx_aesKey s) rk chunks i w \<and>
               pc_frames lib (tx_aesKey s) rk chunks (Suc i) pc1"
    then obtain w where w: "writes_of out = [w]"
      "frame_payload lib (tx_aesKey s) rk chunks i w"
      "pc_frames lib (tx_aesKey s) rk chunks (Suc i) pc1"
      by blast
    with Cons.IH[of s1 "Suc i" pc1] key run show ?thesis by simp
  qed
qed

lemma are_frames_nth:
  "are_frames lib key rk chunks i ws \<Longrightarrow> k < length ws \<Longrightarrow>
     frame_payload lib key rk chunks (i + k) (ws ! k)"
proof (induction ws arbitrary: i k)
  case Nil
  then show ?case by simp
next
  case (Cons w ws)
  show ?case
  proof (cases k)
    case 0
    with Cons.prems show ?thesis by simp
  next
    case (Suc n)
    with Cons.prems Cons.IH[of "Suc i" n] show ?thesis by simp
  qed
qed

lemma sendFileChunks_frames:
  "tx_aesKey (fst (sendFileChunks lib rk (Inr base64Data) s)) = tx_aesKey s \<and>
   pc_frames lib (tx_aesKey s) rk (chunkBase64String base64Data) 0
     (snd (sendFileChunks lib rk (Inr base64Data) s))"
  using loopHead_pc_frames[of lib "s\<lparr>tx_error := None\<rparr>" rk "chunkBase64String base64Data" 0]
  by (simp add: sendFileChunks_def Let_def loopHead_aesKey)

text \<open>The \<open>k\<close>-th value written in a run of \<^verbatim>\<open>sendFileChunks\<close> is the payload of chunk
  \<open>k\<close>.\<close>

lemma sendFileChunks_writes:
  assumes "k < length (writes_of (snd (tx_run lib rk (sendFileChunks lib rk (Inr base64Data) s) es)))"
  shows "frame_payload lib (tx_aesKey s) rk (chunkBase64String base64Data) k
           (writes_of (snd (tx_run lib rk (sendFileChunks lib rk (Inr base64Data) s) es)) ! k)"
proof -
  obtain s0 pc0 where c: "sendFileChunks lib rk (Inr base64Data) s = (s0, pc0)"
    by (cases "sendFileChunks lib rk (Inr base64Data) s")
  with sendFileChunks_frames[of lib rk base64Data s]
  have "tx_aesKey s0 = tx_aesKey s"
    and "pc_frames lib (tx_aesKey s0) rk (chunkBase64String base64Data) 0 pc0"
    by simp_all
  from tx_run_frames[OF this(2), of es] this(1) c
  have "are_frames lib (tx_aesKey s) rk (chunkBase64String base64Data) 0
          (writes_of (snd (tx_run lib rk (sendFileChunks lib rk (Inr base64Data) s) es)))"
    by simp
  from are_frames_nth[OF this assms] show ?thesis by simp
qed

text \<open>The \<open>k\<close>-th value written, in terms of the text of the file.\<close>

lemma sendFileChunks_write_nth:
  assumes "k < length (writes_of (snd (tx_run lib rk (sendFileChunks lib rk (Inr base64Data) s) es)))"
  shows "k * CHUNK_SIZE < length base64Data \<and>
         (\<exists>iv cipher.
            rk k = Inr iv \<and>
            AES_encrypt lib (take CHUNK_SIZE (drop (k * CHUNK_SIZE) base64Data)) (tx_aesKey s) iv
              ''aes-256-gcm'' = Inr cipher \<and>
            writes_of (snd (tx_run lib rk (sendFileChunks lib rk (Inr base64Data) s) es)) ! k
              = base64_encode lib (iv @ cipher))"
proof -
  from sendFileChunks_writes[OF assms]
  have fp: "frame_payload lib (tx_aesKey s) rk (chunkBase64String base64Data) k
      (writes_of (snd (tx_run lib rk (sendFileChunks lib rk (Inr base64Data) s) es)) ! k)" .
  then have "k < length (chunkBase64String base64Data)"
    by (simp add: frame_payload_def)
  from chunkBase64String_nth[OF this] fp show ?thesis
    by (auto simp: frame_payload_def split: sum.splits)
qed

text \<open>
  Claim C3, as amended. The claim says that every frame on the wire starts with a 4-byte
  big-endian sequence number and a flags byte, followed by a 12-byte nonce, the
  ciphertext and a 16-byte tag. In the code the \<open>k\<close>-th value written to the transfer
  characteristic is the transport encoding of the IV string drawn for chunk \<open>k\<close>
  followed by the string that \<^verbatim>\<open>AES.encrypt\<close> returned for chunk \<open>k\<close>, where chunk \<open>k\<close> is
  the slice of at most 180 characters that starts at character \<open>180 * k\<close> of the file's
  Base64 text. The value depends on nothing else: chunks with the same text for which
  the same IV is drawn are written as the same value, whatever their positions in the
  file and whether or not one of them is the last.
\<close>

theorem frames_are_iv_and_cipher:
  assumes "k < length (writes_of (snd (tx_run lib rk (sendFileChunks lib rk (Inr base64Data) s) es)))"
  shows "k * CHUNK_SIZE < length base64Data \<and>
         (\<exists>iv cipher.
            rk k = Inr iv \<and>
            AES_encrypt lib (take CHUNK_SIZE (drop (k * CHUNK_SIZE) base64Data)) (tx_aesKey s) iv
              ''aes-256-gcm'' = Inr cipher \<and>
            writes_of (snd (tx_run lib rk (sendFileChunks lib rk (Inr base64Data) s) es)) ! k
              = base64_encode lib (iv @ cipher)) \<and>
         (\<forall>j. j < length (writes_of (snd (tx_run lib rk (sendFileChunks lib rk (Inr base64Data) s) es))) \<and>
              rk j = rk k \<and>
              take CHUNK_SIZE (drop (j * CHUNK_SIZE) base64Data) =
                take CHUNK_SIZE (drop (k * CHUNK_SIZE) base64Data) \<longrightarrow>
              writes_of (snd (tx_run lib rk (sendFileChunks lib rk (Inr base64Data) s) es)) ! j =
                writes_of (snd (tx_run lib rk (sendFileChunks lib rk (Inr base64Data) s) es)) ! k)"
proof -
  let ?W = "writes_of (snd (tx_run lib rk (sendFileChunks lib rk (Inr base64Data) s) es))"
  note at_k = sendFileChunks_write_nth[OF assms]
  have "?W ! j = ?W ! k"
    if "j < length ?W" and "rk j = rk k"
      and "take CHUNK_SIZE (drop (j * CHUNK_SIZE) base64Data) =
           take CHUNK_SIZE (drop (k * CHUNK_SIZE) base64Data)" for j
    using sendFileChunks_write_nth[OF that(1)] at_k that(2,3) by auto
  with at_k show ?thesis by blast
qed

theorem frames_are_iv_and_cipher_witness:
  "1 < length (writes_of (snd (tx_run ref_lib demo_rk
         (sendFileChunks ref_lib demo_rk (Inr demo_data_equal_chunks) demo_sender)
         [Wake None, Notify (NotifyValue (Some ''QUNL'')), Wake None]))) \<and>
   1 * CHUNK_SIZE < length demo_data_equal_chunks \<and>
   (\<exists>iv cipher.
      demo_rk 1 = Inr iv \<and>
      AES_encrypt ref_lib (take CHUNK_SIZE (drop (1 * CHUNK_SIZE) demo_data_equal_chunks))
        (tx_aesKey demo_sender) iv ''aes-256-gcm'' = Inr cipher \<and>
      writes_of (snd (tx_run ref_lib demo_rk
         (sendFileChunks ref_lib demo_rk (Inr demo_data_equal_chunks) demo_sender)
         [Wake None, Notify (NotifyValue (Some ''QUNL'')), Wake None])) ! 1
        = base64_encode ref_lib (iv @ cipher)) \<and>
   length (take CHUNK_SIZE (drop (1 * CHUNK_SIZE) demo_data_equal_chunks)) = 180 \<and>
   writes_of (snd (tx_run ref_lib demo_rk
         (sendFileChunks ref_lib demo_rk (Inr demo_data_equal_chunks) demo_sender)
         [Wake None, Notify (NotifyValue (Some ''QUNL'')), Wake None])) ! 0
     = writes_of (snd (tx_run ref_lib demo_rk
         (sendFileChunks ref_lib demo_rk (Inr demo_data_equal_chunks) demo_sender)
         [Wake None, Notify (NotifyValue (Some ''QUNL'')), Wake None])) ! 1"
proof -
  let ?W = "writes_of (snd (tx_run ref_lib demo_rk
         (sendFileChunks ref_lib demo_rk (Inr demo_data_equal_chunks) demo_sender)
         [Wake None, Notify (NotifyValue (Some ''QUNL'')), Wake None]))"
  have k: "1 < length ?W"
    by code_simp
  then have j: "0 < length ?W"
    by linarith
  have r: "demo_rk 0 = demo_rk 1"
    by (simp add: demo_rk_def)
  have c: "take CHUNK_SIZE (drop (0 * CHUNK_SIZE) demo_data_equal_chunks) =
           take CHUNK_SIZE (drop (1 * CHUNK_SIZE) demo_data_equal_chunks)"
    by (simp add: CHUNK_SIZE_def demo_data_equal_chunks_def)
  have l: "length (take CHUNK_SIZE (drop (1 * CHUNK_SIZE) demo_data_equal_chunks)) = 180"
    by (simp add: CHUNK_SIZE_def demo_data_equal_chunks_def)
  note at_1 = frames_are_iv_and_cipher[OF k]
  note same = at_1[THEN conjunct2, THEN conjunct2, THEN spec, of 0, THEN mp, OF conjI[OF j conjI[OF r c]]]
  show ?thesis
    using k at_1[THEN conjunct1] at_1[THEN conjunct2, THEN conjunct1] l same
    by (intro conjI)
qed

theorem frame_layout_counterexample:
  "writes_of (snd (tx_run ref_lib demo_rk
      (sendFileChunks ref_lib demo_rk (Inr ''QUJD'') demo_sender) [Wake None]))
     = [''MDEyMzQ1Njc4OWFiY2RlZjAxMjM0NTY3VVZWS1JEYzJOVFF6TWpFd1ptVmtZMkpoT1RnPQ==''] \<and>
   base64_decode ref_lib
      ''MDEyMzQ1Njc4OWFiY2RlZjAxMjM0NTY3VVZWS1JEYzJOVFF6TWpFd1ptVmtZMkpoT1RnPQ==''
     = Inr ''0123456789abcdef01234567UVVKRDc2NTQzMjEwZmVkY2JhOTg='' \<and>
   \<not> spec_wire_layout 0 True
      ''MDEyMzQ1Njc4OWFiY2RlZjAxMjM0NTY3VVZWS1JEYzJOVFF6TWpFd1ptVmtZMkpoT1RnPQ=='' \<and>
   \<not> spec_wire_layout 0 True ''0123456789abcdef01234567UVVKRDc2NTQzMjEwZmVkY2JhOTg=''"
  by code_simp

section \<open>Sender: payload size\<close>

lemma ref_encode_length: "length (ref_encode x) = 4 * ((length x + 2) div 3)"
proof (induction x rule: ref_encode.induct)
  case (4 a b c rest)
  have "(length (a # b # c # rest) + 2) div 3 = Suc ((length rest + 2) div 3)"
    by simp
  with 4 show ?case by (simp add: Let_def)
qed (simp_all add: Let_def)

text \<open>
  Claim C4. The claim says that the payload written for a chunk never exceeds the
  payload budget of 180 bytes. The code cuts the plaintext into chunks of
  \<open>CHUNK_SIZE = 180\<close> characters ("bytes per BLE payload chunk") and then adds the IV,
  encrypts and encodes. With a cipher and a transport encoding that never return less
  than they are given, and a non-empty IV, the payload written for every full chunk is
  longer than 180 characters.
\<close>

theorem full_chunk_exceeds_budget:
  assumes "\<And>x. length x \<le> length (base64_encode lib x)"
    and "\<And>p key iv a c. AES_encrypt lib p key iv a = Inr c \<Longrightarrow> length p \<le> length c"
    and "\<And>iv. rk k = Inr iv \<Longrightarrow> iv \<noteq> []"
    and "k < length (writes_of (snd (tx_run lib rk (sendFileChunks lib rk (Inr base64Data) s) es)))"
    and "(k + 1) * CHUNK_SIZE \<le> length base64Data"
  shows "180 < length (writes_of (snd (tx_run lib rk (sendFileChunks lib rk (Inr base64Data) s) es)) ! k)"
proof -
  let ?w = "writes_of (snd (tx_run lib rk (sendFileChunks lib rk (Inr base64Data) s) es)) ! k"
  let ?chunk = "chunkBase64String base64Data ! k"
  from sendFileChunks_writes[OF assms(4)]
  obtain iv cipher where iv: "rk k = Inr iv"
    and c: "AES_encrypt lib ?chunk (tx_aesKey s) iv ''aes-256-gcm'' = Inr cipher"
    and w: "?w = base64_encode lib (iv @ cipher)"
    by (auto simp: frame_payload_def split: sum.splits)
  have "length ?chunk = 180"
    using full_chunk_length[OF assms(5)] by (simp add: CHUNK_SIZE_def)
  moreover have "length ?chunk \<le> length cipher"
    using assms(2)[OF c] .
  moreover have "0 < length iv"
    using assms(3)[OF iv] by simp
  moreover have "length iv + length cipher \<le> length ?w"
    using assms(1)[of "iv @ cipher"] w by simp
  ultimately show ?thesis by linarith
qed

theorem full_chunk_exceeds_budget_witness:
  "180 < length (writes_of (snd (tx_run ref_lib demo_rk
            (sendFileChunks ref_lib demo_rk (Inr demo_data) demo_sender) [Wake None])) ! 0)"
proof -
  have enc: "\<And>x. length x \<le> length (base64_encode ref_lib x)"
    by (simp add: ref_lib_def ref_encode_length)
  have aes: "\<And>p key iv a c. AES_encrypt ref_lib p key iv a = Inr c \<Longrightarrow> length p \<le> length c"
    by (auto simp: ref_lib_def ref_encrypt_def ref_encode_length split: option.splits)
  have iv: "\<And>iv. demo_rk 0 = Inr iv \<Longrightarrow> iv \<noteq> []"
    by (auto simp: demo_rk_def demo_iv_def)
  have k: "0 < length (writes_of (snd (tx_run ref_lib demo_rk
            (sendFileChunks ref_lib demo_rk (Inr demo_data) demo_sender) [Wake None])))"
    by code_simp
  have full: "(0 + 1) * CHUNK_SIZE \<le> length demo_data"
    by (simp add: CHUNK_SIZE_def demo_data_def)
  from full_chunk_exceeds_budget[of ref_lib demo_rk 0, OF enc aes iv k full]
  show ?thesis .
qed

section \<open>Key derivation\<close>

text \<open>
  Claim C5. The claim says that the session key comes from a salted extract-and-expand
  derivation with a context label. \<^verbatim>\<open>deriveAESKey\<close> (which its own comments call HKDF)
  takes no salt and no label and calls the hash once: whenever \<^verbatim>\<open>sha256\<close> returns a
  digest of 64 hexadecimal digits for the hexadecimal text of the shared secret, the
  session key of both apps is that digest itself (32 bytes, as 64 hexadecimal digits).
\<close>

theorem session_key_is_digest:
  assumes "sha256 lib (toHex sharedSecret) = Inr hash" and "length hash = 64"
  shows "deriveAESKey lib sharedSecret = Inr hash \<and>
         tx_aesKey (tx_deriveAESKey lib sharedSecret s) = Some hash \<and>
         rx_aesKey (rx_deriveAESKey lib sharedSecret r) = Some hash"
  using assms by (simp add: deriveAESKey_def tx_deriveAESKey_def rx_deriveAESKey_def)

theorem session_key_is_digest_witness:
  "sha256 ref_lib (toHex ''abc'') =
     Inr ''3336323631360000000000000000000000000000000000000000000000000000'' \<and>
   length ''3336323631360000000000000000000000000000000000000000000000000000'' = 64 \<and>
   deriveAESKey ref_lib ''abc'' =
     Inr ''3336323631360000000000000000000000000000000000000000000000000000'' \<and>
   tx_aesKey (tx_deriveAESKey ref_lib ''abc'' tx_initial) =
     Some ''3336323631360000000000000000000000000000000000000000000000000000'' \<and>
   rx_aesKey (rx_deriveAESKey ref_lib ''abc'' rx_initial) =
     Some ''3336323631360000000000000000000000000000000000000000000000000000''"
proof -
  have h: "sha256 ref_lib (toHex ''abc'') =
     Inr ''3336323631360000000000000000000000000000000000000000000000000000''"
    by code_simp
  have l: "length ''3336323631360000000000000000000000000000000000000000000000000000'' = 64"
    by simp
  from session_key_is_digest[OF h l, of tx_initial rx_initial] h l show ?thesis by blast
qed

section \<open>From the sender's frame to the receiver's buffer\<close>

lemma ref_decode_length: "ref_decode x = Inr d \<Longrightarrow> 4 * length d \<le> 3 * length x"
proof (induction x arbitrary: d rule: ref_decode.induct)
  case 1
  then show ?case by simp
next
  case (2 c1 c2 c3 c4 rest)
  from "2.prems" obtain i1 i2 where i: "b64index c1 = Some i1" "b64index c2 = Some i2"
    by (auto split: option.splits)
  show ?case
  proof (cases "c3 = CHR ''='' \<and> c4 = CHR ''='' \<and> rest = []")
    case True
    with "2.prems" i show ?thesis by auto
  next
    case pad2: False
    with "2.prems" i obtain i3 where i3: "b64index c3 = Some i3"
      by (auto split: option.splits)
    show ?thesis
    proof (cases "c4 = CHR ''='' \<and> rest = []")
      case True
      with "2.prems" i i3 pad2 show ?thesis by auto
    next
      case pad1: False
      with "2.prems" i i3 pad2 obtain i4 bytes where i4: "b64index c4 = Some i4"
        and rest: "ref_decode rest = Inr bytes"
        and d: "d = byte (i1 * 4 + i2 div 16) # byte (i2 * 16 + i3 div 4)
                    # byte (i3 * 64 + i4) # bytes"
        by (auto split: option.splits sum.splits)
      from "2.IH"[OF refl i(1) i(2) pad2 i3 pad1 i4 rest]
      have "4 * length bytes \<le> 3 * length rest" .
      with d show ?thesis by simp
    qed
  qed
qed simp_all

lemma ref_tag_length: "length (ref_tag k iv) = 16"
  by (simp add: ref_tag_def)

lemma ref_decrypt_authentic:
  assumes "AES_decrypt ref_lib c key iv a = Inr p"
  shows "AES_encrypt ref_lib p key iv a = Inr c"
proof -
  from assms obtain k d where k: "key = Some k" and d: "ref_decode c = Inr d"
    and ok: "16 \<le> length d" "drop (length d - 16) d = ref_tag k iv" "ref_encode d = c"
    and p: "p = take (length d - 16) d"
    by (auto simp: ref_lib_def ref_decrypt_def split: option.splits sum.splits if_splits)
  have "p @ ref_tag k iv = d"
    using ok(2) p by (metis append_take_drop_id)
  with k ok(3) show ?thesis
    by (simp add: ref_lib_def ref_encrypt_def)
qed

lemma ref_encrypt_length:
  assumes "AES_encrypt ref_lib p key iv a = Inr c" and "AES_encrypt ref_lib p key iv' a = Inr c'"
  shows "length c' = length c"
  using assms
  by (auto simp: ref_lib_def ref_encrypt_def ref_encode_length ref_tag_length split: option.splits)

text \<open>The receiver's \<^verbatim>\<open>decryptChunk\<close> applied to what the sender's \<^verbatim>\<open>encryptChunk\<close> returned:
  the receiver decodes the frame once more and cuts 12 characters off the result, so
  the ciphertext it hands to \<^verbatim>\<open>AES.decrypt\<close> has another length than the one
  \<^verbatim>\<open>AES.encrypt\<close> returned.\<close>

lemma decryptChunk_of_encryptChunk:
  assumes dec_len: "\<And>x d. base64_decode lib x = Inr d \<Longrightarrow> 4 * length d \<le> 3 * length x"
    and auth: "\<And>c k iv a p. AES_decrypt lib c k iv a = Inr p \<Longrightarrow> AES_encrypt lib p k iv a = Inr c"
    and ct_len: "\<And>p k iv iv' a c c'. AES_encrypt lib p k iv a = Inr c \<Longrightarrow>
                   AES_encrypt lib p k iv' a = Inr c' \<Longrightarrow> length c' = length c"
    and enc: "encryptChunk lib key (Inr iv) P = Inr frame"
    and nonempty: "length iv < length frame"
    and short: "4 * length iv < length frame + 48"
  shows "decryptChunk lib key frame \<noteq> Inr P"
proof
  assume same: "decryptChunk lib key frame = Inr P"
  from enc obtain c where c: "AES_encrypt lib P key iv ''aes-256-gcm'' = Inr c"
    and frame: "frame = iv @ c"
    by (auto simp: encryptChunk_def split: sum.splits)
  from same obtain D where D: "base64_decode lib frame = Inr D"
    and dec: "AES_decrypt lib (drop 12 D) key (take 12 D) ''aes-256-gcm'' = Inr P"
    by (auto simp: decryptChunk_def Let_def split: sum.splits)
  from auth[OF dec] have "AES_encrypt lib P key (take 12 D) ''aes-256-gcm'' = Inr (drop 12 D)" .
  from ct_len[OF c this] have len: "length D - 12 = length c" by simp
  from dec_len[OF D] frame have "4 * length D \<le> 3 * (length iv + length c)" by simp
  moreover from nonempty frame have "0 < length c" by simp
  moreover from short frame have "3 * length iv < length c + 48" by simp
  ultimately show False using len by arith
qed

text \<open>
  Claim C1. The claim says that the receiver recovers exactly the chunk the sender
  encrypted. In the code the sender encodes \<open>iv + cipher\<close> once for the transport
  (line 319), while the receiver decodes the notification value (line 157) and then
  decodes a second time in \<^verbatim>\<open>decryptChunk\<close> (line 254) before it cuts off 12 characters
  as the IV. Assume of the packages that Base64 decoding returns at most three
  characters for four, that \<^verbatim>\<open>AES.decrypt\<close> accepts only what \<^verbatim>\<open>AES.encrypt\<close> produced
  under the same key and IV, and that the length of a ciphertext does not depend on the
  IV; take a frame whose ciphertext is not empty and whose IV is at most as long as the
  24 hexadecimal digits of \<^verbatim>\<open>AES.randomKey(12)\<close> allow (\<open>3 * |iv| < |cipher| + 48\<close>), and
  let the transport deliver the written value unchanged. Then the receiver does not get
  the chunk back, and its buffer does not grow by the chunk.
\<close>

theorem roundtrip_fails:
  assumes "\<And>x d. base64_decode lib x = Inr d \<Longrightarrow> 4 * length d \<le> 3 * length x"
    and "\<And>c k iv a p. AES_decrypt lib c k iv a = Inr p \<Longrightarrow> AES_encrypt lib p k iv a = Inr c"
    and "\<And>p k iv iv' a c c'. AES_encrypt lib p k iv a = Inr c \<Longrightarrow>
           AES_encrypt lib p k iv' a = Inr c' \<Longrightarrow> length c' = length c"
    and "encryptChunk lib (rx_aesKey r) (Inr iv) P = Inr frame"
    and "length iv < length frame"
    and "4 * length iv < length frame + 48"
    and "base64_decode lib (base64_encode lib frame) = Inr frame"
  shows "decryptChunk lib (rx_aesKey r) frame \<noteq> Inr P \<and>
         receivedChunks (rx_monitor lib wr fs r (NotifyValue (Some (base64_encode lib frame))))
           \<noteq> receivedChunks r @ [P]"
proof -
  have no: "decryptChunk lib (rx_aesKey r) frame \<noteq> Inr P"
    using assms(1-6) by (rule decryptChunk_of_encryptChunk)
  have "receivedChunks (processReceivedChunk lib wr fs frame r) \<noteq> receivedChunks r @ [P]"
  proof (cases "decryptChunk lib (rx_aesKey r) frame")
    case (Inl msg)
    then show ?thesis by (simp add: processReceivedChunk_def)
  next
    case (Inr p)
    with no have "p \<noteq> P" by simp
    with processReceivedChunk_accept(1)[OF Inr, of wr fs] show ?thesis by simp
  qed
  with assms(7) no show ?thesis by simp
qed

theorem roundtrip_fails_witness:
  "encryptChunk ref_lib (rx_aesKey demo_receiver) (Inr demo_iv) ''QUJD'' =
     Inr ''0123456789abcdef01234567UVVKRDc2NTQzMjEwZmVkY2JhOTg='' \<and>
   decryptChunk ref_lib (rx_aesKey demo_receiver)
     ''0123456789abcdef01234567UVVKRDc2NTQzMjEwZmVkY2JhOTg='' \<noteq> Inr ''QUJD'' \<and>
   receivedChunks (rx_monitor ref_lib None None demo_receiver
      (NotifyValue (Some (base64_encode ref_lib
         ''0123456789abcdef01234567UVVKRDc2NTQzMjEwZmVkY2JhOTg=''))))
     \<noteq> receivedChunks demo_receiver @ [''QUJD''] \<and>
   rx_error (rx_monitor ref_lib None None demo_receiver
      (NotifyValue (Some (base64_encode ref_lib
         ''0123456789abcdef01234567UVVKRDc2NTQzMjEwZmVkY2JhOTg=''))))
     = Some ''Chunk processing error: Decryption error: invalid base64 character'' \<and>
   rx_writes (rx_monitor ref_lib None None demo_receiver
      (NotifyValue (Some (base64_encode ref_lib
         ''0123456789abcdef01234567UVVKRDc2NTQzMjEwZmVkY2JhOTg=''))))
     = []"
proof -
  let ?frame = "''0123456789abcdef01234567UVVKRDc2NTQzMjEwZmVkY2JhOTg=''"
  have enc: "encryptChunk ref_lib (rx_aesKey demo_receiver) (Inr demo_iv) ''QUJD'' = Inr ?frame"
    by code_simp
  have "decryptChunk ref_lib (rx_aesKey demo_receiver) ?frame \<noteq> Inr ''QUJD'' \<and>
        receivedChunks (rx_monitor ref_lib None None demo_receiver
            (NotifyValue (Some (base64_encode ref_lib ?frame))))
          \<noteq> receivedChunks demo_receiver @ [''QUJD'']"
  proof (rule roundtrip_fails[where iv = demo_iv])
    show "\<And>x d. base64_decode ref_lib x = Inr d \<Longrightarrow> 4 * length d \<le> 3 * length x"
      by (simp add: ref_lib_def ref_decode_length)
    show "\<And>c k iv a p. AES_decrypt ref_lib c k iv a = Inr p \<Longrightarrow>
            AES_encrypt ref_lib p k iv a = Inr c"
      by (rule ref_decrypt_authentic)
    show "\<And>p k iv iv' a c c'. AES_encrypt ref_lib p k iv a = Inr c \<Longrightarrow>
            AES_encrypt ref_lib p k iv' a = Inr c' \<Longrightarrow> length c' = length c"
      by (rule ref_encrypt_length)
    show "encryptChunk ref_lib (rx_aesKey demo_receiver) (Inr demo_iv) ''QUJD'' = Inr ?frame"
      by (rule enc)
    show "length demo_iv < length ?frame"
      by (simp add: demo_iv_def)
    show "4 * length demo_iv < length ?frame + 48"
      by (simp add: demo_iv_def)
    show "base64_decode ref_lib (base64_encode ref_lib ?frame) = Inr ?frame"
      by code_simp
  qed
  moreover have "rx_error (rx_monitor ref_lib None None demo_receiver
      (NotifyValue (Some (base64_encode ref_lib ?frame))))
     = Some ''Chunk processing error: Decryption error: invalid base64 character''"
    by code_simp
  moreover have "rx_writes (rx_monitor ref_lib None None demo_receiver
      (NotifyValue (Some (base64_encode ref_lib ?frame)))) = []"
    by code_simp
  ultimately show ?thesis using enc by blast
qed

end
